theory Spec2Isabelle
  imports Main "HOL-Library.Sublist" "HOL-Library.AList"
begin

section \<open>The image-metadata handler (src/app.py)\<close>

text \<open>
  The program is one Python module with three functions: \<open>lambda_handler\<close> (the router),
  \<open>handle_s3_event\<close> (ingestion) and \<open>handle_api_gateway_event\<close> (query). It talks to
  two services through boto3: an object store (\<open>head_object\<close>) and a key-value table
  (\<open>put_item\<close>, \<open>get_item\<close>). The embedding passes the state of both services
  explicitly as a \<open>world\<close> and returns every raised exception as a value.
\<close>

subsection \<open>Python values and exceptions\<close>

text \<open>
  The values the program handles: JSON data of the event (\<open>None\<close>, \<open>bool\<close>, \<open>int\<close>,
  \<open>str\<close>, \<open>list\<close>, \<open>dict\<close> with string keys) and \<open>Decimal\<close>, the type in which the
  table hands numbers back. \<open>PDecimal m e\<close> is the finite decimal \<open>m * 10^e\<close>.
  A \<open>str\<close> is the byte sequence of its UTF-8 encoding. A \<open>dict\<close> is an association
  list read with \<open>map_of\<close>. JSON numbers with a fractional part are left out: no
  operation of the program inspects one.
\<close>

datatype pyval =
    PNone
  | PBool bool
  | PInt int
  | PDecimal int int
  | PStr string
  | PList "pyval list"
  | PDict "(string \<times> pyval) list"

datatype exn =
    KeyError
  | IndexError
  | TypeError
  | AttributeError
  | ValueError
  | ClientError string
  | BotoCoreError string

datatype subscript = Key string | Idx int

text \<open>A \<open>str\<close> as the list of its characters: each lead byte with its continuation bytes.\<close>

definition is_continuation :: "char \<Rightarrow> bool" where
  "is_continuation c = (128 \<le> (of_char c :: nat) \<and> (of_char c :: nat) \<le> 191)"

fun utf8_chars :: "string \<Rightarrow> string list" where
  "utf8_chars [] = []"
| "utf8_chars (c # cs) =
     (case utf8_chars cs of
        [] \<Rightarrow> [[c]]
      | (d # ds) \<Rightarrow>
          (case d of
             [] \<Rightarrow> [c] # ds
           | (b # bs) \<Rightarrow> if is_continuation b then (c # d) # ds else [c] # d # ds))"

text \<open>\<open>xs[i]\<close> on a Python sequence: a negative index counts from the end.\<close>

definition py_index :: "'a list \<Rightarrow> int \<Rightarrow> exn + 'a" where
  "py_index xs i =
     (if 0 \<le> i \<and> i < int (length xs) then Inr (xs ! nat i)
      else if i < 0 \<and> - i \<le> int (length xs) then Inr (xs ! nat (int (length xs) + i))
      else Inl IndexError)"

text \<open>\<open>obj[k]\<close>.\<close>

fun py_getitem :: "pyval \<Rightarrow> subscript \<Rightarrow> exn + pyval" where
  "py_getitem (PDict kvs) (Key k) =
     (case map_of kvs k of None \<Rightarrow> Inl KeyError | Some v \<Rightarrow> Inr v)"
| "py_getitem (PDict kvs) (Idx i) = Inl KeyError"
| "py_getitem (PList xs) (Idx i) = py_index xs i"
| "py_getitem (PList xs) (Key k) = Inl TypeError"
| "py_getitem (PStr s) (Idx i) =
     (case py_index (utf8_chars s) i of Inl e \<Rightarrow> Inl e | Inr c \<Rightarrow> Inr (PStr c))"
| "py_getitem (PStr s) (Key k) = Inl TypeError"
| "py_getitem _ _ = Inl TypeError"

text \<open>A chain of subscripts \<open>obj[k1][k2]...\<close>, stopping at the first exception.\<close>

fun py_path :: "pyval \<Rightarrow> subscript list \<Rightarrow> exn + pyval" where
  "py_path v [] = Inr v"
| "py_path v (k # ks) =
     (case py_getitem v k of Inl e \<Rightarrow> Inl e | Inr v' \<Rightarrow> py_path v' ks)"

text \<open>\<open>k in obj\<close> for a string \<open>k\<close>: a key of a dict, an element of a list, a substring
  of a string; anything else is not iterable.\<close>

fun py_in :: "string \<Rightarrow> pyval \<Rightarrow> exn + bool" where
  "py_in k (PDict kvs) = Inr (k \<in> fst ` set kvs)"
| "py_in k (PList xs) = Inr (PStr k \<in> set xs)"
| "py_in k (PStr s) = Inr (sublist k s)"
| "py_in k _ = Inl TypeError"

subsection \<open>json.dumps\<close>

text \<open>
  \<open>json.dumps\<close> raises \<open>TypeError\<close> on a \<open>Decimal\<close> and serialises every other value
  of \<open>pyval\<close>. The text it produces is represented by the value it encodes.
\<close>

datatype json_text = JsonText pyval

fun json_serializable :: "pyval \<Rightarrow> bool" where
  "json_serializable (PDecimal m e) = False"
| "json_serializable (PList xs) = list_all json_serializable xs"
| "json_serializable (PDict kvs) = list_all (\<lambda>kv. json_serializable (snd kv)) kvs"
| "json_serializable _ = True"

definition json_dumps :: "pyval \<Rightarrow> exn + json_text" where
  "json_dumps v = (if json_serializable v then Inr (JsonText v) else Inl TypeError)"

subsection \<open>urllib.parse.unquote_plus\<close>

text \<open>
  The standard library's \<open>unquote_plus\<close>, on strings as UTF-8 byte sequences:
  \<^verbatim>\<open>
  def unquote_plus(string):
      string = string.replace('+', ' ')
      return unquote(string)

  def unquote(string):                       # encoding='utf-8', errors='replace'
      if '%' not in string:
          return string
      # every maximal run of ASCII characters is percent-decoded to bytes and the
      # bytes are decoded as UTF-8; the characters between the runs are kept
      ...

  def _unquote_impl(string):
      bits = string.split(b'%')
      if len(bits) == 1:
          return string
      res = bytearray(bits[0])
      for item in bits[1:]:
          try:
              res.extend(_hextobyte[item[:2]]); res.extend(item[2:])
          except KeyError:
              res.extend(b'%'); res.extend(item)
      return res
  \<close>
\<close>

definition is_hexdig :: "char \<Rightarrow> bool" where
  "is_hexdig c = (c \<in> set ''0123456789ABCDEFabcdef'')"

definition hexval :: "char \<Rightarrow> nat" where
  "hexval c =
     (let n = (of_char c :: nat)
      in if n \<le> 57 then n - 48 else if n \<le> 70 then n - 55 else n - 87)"

fun split_on :: "char \<Rightarrow> string \<Rightarrow> string list" where
  "split_on d [] = [[]]"
| "split_on d (c # cs) =
     (if c = d then [] # split_on d cs
      else (case split_on d cs of [] \<Rightarrow> [[c]] | b # bs \<Rightarrow> (c # b) # bs))"

fun unquote_item :: "string \<Rightarrow> string" where
  "unquote_item (a # b # rest) =
     (if is_hexdig a \<and> is_hexdig b then char_of (16 * hexval a + hexval b) # rest
      else CHR ''%'' # a # b # rest)"
| "unquote_item item = CHR ''%'' # item"

definition unquote_impl :: "string \<Rightarrow> string" where
  "unquote_impl s =
     (case split_on (CHR ''%'') s of
        [] \<Rightarrow> s
      | b0 # bits \<Rightarrow> if bits = [] then s else b0 @ concat (map unquote_item bits))"

text \<open>
  \<open>bytes.decode('utf-8', 'replace')\<close> followed by the UTF-8 encoding of the result:
  well-formed sequences are kept, every maximal ill-formed part becomes U+FFFD
  (the bytes EF BF BD).
\<close>

definition seq_len :: "char \<Rightarrow> nat" where
  "seq_len l =
     (let n = (of_char l :: nat)
      in if n < 128 then 1
         else if 194 \<le> n \<and> n \<le> 223 then 2
         else if 224 \<le> n \<and> n \<le> 239 then 3
         else if 240 \<le> n \<and> n \<le> 244 then 4
         else 0)"

definition second_ok :: "char \<Rightarrow> char \<Rightarrow> bool" where
  "second_ok l b =
     (let n = (of_char l :: nat); m = (of_char b :: nat)
      in if n = 224 then 160 \<le> m \<and> m \<le> 191
         else if n = 237 then 128 \<le> m \<and> m \<le> 159
         else if n = 240 then 144 \<le> m \<and> m \<le> 191
         else if n = 244 then 128 \<le> m \<and> m \<le> 143
         else 128 \<le> m \<and> m \<le> 191)"

definition replacement :: string where
  "replacement = [char_of (239 :: nat), char_of (191 :: nat), char_of (189 :: nat)]"

fun utf8_replace :: "string \<Rightarrow> string" where
  "utf8_replace [] = []"
| "utf8_replace (l # bs) =
     (if seq_len l = 1 then l # utf8_replace bs
      else if seq_len l = 0 then replacement @ utf8_replace bs
      else
        (case bs of
           [] \<Rightarrow> replacement
         | b2 # bs2 \<Rightarrow>
             if \<not> second_ok l b2 then replacement @ utf8_replace bs
             else if seq_len l = 2 then l # b2 # utf8_replace bs2
             else
               (case bs2 of
                  [] \<Rightarrow> replacement
                | b3 # bs3 \<Rightarrow>
                    if \<not> is_continuation b3 then replacement @ utf8_replace bs2
                    else if seq_len l = 3 then l # b2 # b3 # utf8_replace bs3
                    else
                      (case bs3 of
                         [] \<Rightarrow> replacement
                       | b4 # bs4 \<Rightarrow>
                           if \<not> is_continuation b4 then replacement @ utf8_replace bs3
                           else l # b2 # b3 # b4 # utf8_replace bs4))))"

definition is_ascii :: "char \<Rightarrow> bool" where
  "is_ascii c = ((of_char c :: nat) < 128)"

text \<open>The maximal runs of ASCII and of non-ASCII characters, in order.\<close>

fun ascii_runs :: "string \<Rightarrow> (bool \<times> string) list" where
  "ascii_runs [] = []"
| "ascii_runs (c # cs) =
     (case ascii_runs cs of
        [] \<Rightarrow> [(is_ascii c, [c])]
      | (a, run) # rest \<Rightarrow>
          if a = is_ascii c then (a, c # run) # rest
          else (is_ascii c, [c]) # (a, run) # rest)"

definition unquote :: "string \<Rightarrow> string" where
  "unquote s =
     (if CHR ''%'' \<notin> set s then s
      else concat (map (\<lambda>(a, run). if a then utf8_replace (unquote_impl run) else run)
                       (ascii_runs s)))"

definition unquote_plus :: "string \<Rightarrow> string" where
  "unquote_plus s = unquote (map (\<lambda>c. if c = CHR ''+'' then CHR '' '' else c) s)"

text \<open>On anything but a \<open>str\<close>, \<open>string.replace\<close> is an \<open>AttributeError\<close>.\<close>

fun py_unquote_plus :: "pyval \<Rightarrow> exn + string" where
  "py_unquote_plus (PStr s) = Inr (unquote_plus s)"
| "py_unquote_plus _ = Inl AttributeError"

subsection \<open>The services and the library\<close>

text \<open>
  Modelled from the spec: the answer of the object store's metadata fetch, which lives
  in the store and in boto3, outside the program (section 6: content length, an
  integer; content type, a string; last-modified, a timestamp). Each of the three may be
  absent; reading an absent one is a \<open>KeyError\<close>. A \<open>datetime\<close> is an instant,
  counted in microseconds; its rendering is left to \<open>isoformat\<close> below.
\<close>

type_synonym datetime = int

record head_object_output =
  ContentLength :: "int option"
  ContentType :: "string option"
  LastModified :: "datetime option"

text \<open>
  Library functions whose results the program only passes on:
  \<open>datetime.isoformat\<close>, and \<open>int\<close> on a \<open>str\<close> (\<open>None\<close>: a \<open>ValueError\<close>).
\<close>

record pylib =
  isoformat :: "datetime \<Rightarrow> string"
  int_of_str :: "string \<Rightarrow> int option"

datatype call =
    HeadObject pyval string
  | PutItem "(string \<times> pyval) list"
  | GetItem pyval

text \<open>
  Modelled from the spec: the state of the two collaborators, the object store and the
  key-value table, which are services outside the program (section 6).
  \<^item> \<open>store\<close>: what the object store answers to \<open>head_object(Bucket, Key)\<close>: the
    metadata, or the exception boto3 raises (no such object, no such bucket, store
    unreachable, invalid parameter).
  \<^item> \<open>rows\<close>: the table, from the primary key \<open>imageName\<close> to the item, each item as
    \<open>get_item\<close> hands it back.
  \<^item> \<open>put_fault\<close>, \<open>get_fault\<close>: the exception a table call raises, if it does (table
    unreachable, missing table name, request rejected).
  \<^item> \<open>calls\<close>: the calls made to the two services so far, oldest first.
\<close>

record world =
  store :: "pyval \<Rightarrow> string \<Rightarrow> exn + head_object_output"
  rows :: "string \<rightharpoonup> (string \<times> pyval) list"
  put_fault :: "(string \<times> pyval) list \<Rightarrow> exn option"
  get_fault :: "pyval \<Rightarrow> exn option"
  calls :: "call list"

text \<open>Modelled from the spec: \<open>s3_client.head_object(Bucket=b, Key=k)\<close>, the store's
  metadata fetch by key; it answers from \<open>store\<close> and is recorded in \<open>calls\<close>.\<close>

definition head_object :: "world \<Rightarrow> pyval \<Rightarrow> string \<Rightarrow> (exn + head_object_output) \<times> world" where
  "head_object w b k = (store w b k, w\<lparr>calls := calls w @ [HeadObject b k]\<rparr>)"

text \<open>Modelled from the spec: the value the table hands back for a value written; a
  number comes back in the table's decimal form (section 4.3), Python's \<open>Decimal\<close>.\<close>

fun stored :: "pyval \<Rightarrow> pyval" where
  "stored (PInt n) = PDecimal n 0"
| "stored (PList xs) = PList (map stored xs)"
| "stored (PDict kvs) = PDict (map (\<lambda>kv. (fst kv, stored (snd kv))) kvs)"
| "stored v = v"

text \<open>
  Modelled from the spec: \<open>table.put_item(Item=item)\<close>, the table's upsert by primary
  key with overwrite semantics (section 6). The item written replaces whatever the
  table held under the same \<open>imageName\<close>; an item whose \<open>imageName\<close> is not a string
  is rejected by the table.
\<close>

definition put_item :: "world \<Rightarrow> (string \<times> pyval) list \<Rightarrow> (exn + unit) \<times> world" where
  "put_item w item =
     (let w1 = w\<lparr>calls := calls w @ [PutItem item]\<rparr>
      in case put_fault w item of
           Some e \<Rightarrow> (Inl e, w1)
         | None \<Rightarrow>
             (case map_of item ''imageName'' of
                Some (PStr k) \<Rightarrow>
                  (Inr (), w1\<lparr>rows := (rows w1)(k \<mapsto> map (\<lambda>kv. (fst kv, stored (snd kv))) item)\<rparr>)
              | _ \<Rightarrow> (Inl (ClientError ''ValidationException''), w1)))"

text \<open>
  Modelled from the spec: \<open>table.get_item(Key={'imageName': key})\<close>, the table's get
  by primary key, which returns the stored record or an explicit "not found" (section
  6): \<open>Some item\<close> is a response with \<open>'Item'\<close>, \<open>None\<close> one without.
\<close>

definition get_item :: "world \<Rightarrow> pyval \<Rightarrow> (exn + (string \<times> pyval) list option) \<times> world" where
  "get_item w key =
     (let w1 = w\<lparr>calls := calls w @ [GetItem key]\<rparr>
      in case get_fault w key of
           Some e \<Rightarrow> (Inl e, w1)
         | None \<Rightarrow>
             (case key of
                PStr k \<Rightarrow> (Inr (rows w k), w1)
              | _ \<Rightarrow> (Inl (ClientError ''ValidationException''), w1)))"

text \<open>\<open>int(v)\<close>: a \<open>Decimal\<close> is truncated towards zero.\<close>

fun py_int :: "pylib \<Rightarrow> pyval \<Rightarrow> exn + int" where
  "py_int lib (PInt n) = Inr n"
| "py_int lib (PBool b) = Inr (if b then 1 else 0)"
| "py_int lib (PDecimal m e) =
     Inr (if 0 \<le> e then m * 10 ^ nat e
          else if 0 \<le> m then m div 10 ^ nat (- e)
          else - ((- m) div 10 ^ nat (- e)))"
| "py_int lib (PStr s) =
     (case int_of_str lib s of None \<Rightarrow> Inl ValueError | Some n \<Rightarrow> Inr n)"
| "py_int lib _ = Inl TypeError"

subsection \<open>The handlers\<close>

text \<open>The response envelope: a dict with \<open>statusCode\<close> and, optionally, \<open>body\<close> and
  \<open>headers\<close>.\<close>

record response =
  statusCode :: int
  body :: "json_text option"
  headers :: "(string \<times> string) list option"

type_synonym outcome = "(exn + response) \<times> world"

text \<open>The body of the \<open>try\<close> of \<open>handle_s3_event\<close> (lines 33 to 52).\<close>

definition handle_s3_event_try :: "pylib \<Rightarrow> world \<Rightarrow> pyval \<Rightarrow> outcome" where
  "handle_s3_event_try lib w event =
     (case py_path event [Key ''Records'', Idx 0, Key ''s3'', Key ''bucket'', Key ''name''] of
        Inl e \<Rightarrow> (Inl e, w)
      | Inr bucket_name \<Rightarrow>
     (case py_path event [Key ''Records'', Idx 0, Key ''s3'', Key ''object'', Key ''key''] of
        Inl e \<Rightarrow> (Inl e, w)
      | Inr k \<Rightarrow>
     (case py_unquote_plus k of
        Inl e \<Rightarrow> (Inl e, w)
      | Inr object_key \<Rightarrow>
     (case head_object w bucket_name object_key of
        (Inl e, w1) \<Rightarrow> (Inl e, w1)
      | (Inr response, w1) \<Rightarrow>
     (case ContentLength response of
        None \<Rightarrow> (Inl KeyError, w1)
      | Some len \<Rightarrow>
     (case ContentType response of
        None \<Rightarrow> (Inl KeyError, w1)
      | Some ctype \<Rightarrow>
     (case LastModified response of
        None \<Rightarrow> (Inl KeyError, w1)
      | Some modified \<Rightarrow>
     (let item = [(''imageName'', PStr object_key),
                  (''size'', PInt len),
                  (''contentType'', PStr ctype),
                  (''lastModified'', PStr (isoformat lib modified))]
      in case put_item w1 item of
           (Inl e, w2) \<Rightarrow> (Inl e, w2)
         | (Inr u, w2) \<Rightarrow> (Inr \<lparr>statusCode = 200, body = None, headers = None\<rparr>, w2)))))))))"

text \<open>\<open>handle_s3_event\<close>: the \<open>except\<close> clause prints the exception and raises it again.\<close>

definition handle_s3_event :: "pylib \<Rightarrow> world \<Rightarrow> pyval \<Rightarrow> outcome" where
  "handle_s3_event lib w event =
     (case handle_s3_event_try lib w event of
        (Inl e, w') \<Rightarrow> (Inl e, w')
      | (Inr r, w') \<Rightarrow> (Inr r, w'))"

text \<open>The body of the \<open>try\<close> of \<open>handle_api_gateway_event\<close> (lines 64 to 80).\<close>

definition handle_api_gateway_event_try :: "pylib \<Rightarrow> world \<Rightarrow> pyval \<Rightarrow> outcome" where
  "handle_api_gateway_event_try lib w event =
     (case py_path event [Key ''pathParameters'', Key ''imageName''] of
        Inl e \<Rightarrow> (Inl e, w)
      | Inr image_name \<Rightarrow>
     (case get_item w image_name of
        (Inl e, w1) \<Rightarrow> (Inl e, w1)
      | (Inr None, w1) \<Rightarrow>
          (case json_dumps (PDict [(''error'', PStr ''Image not found'')]) of
             Inl e \<Rightarrow> (Inl e, w1)
           | Inr dumped \<Rightarrow> (Inr \<lparr>statusCode = 404, body = Some dumped, headers = None\<rparr>, w1))
      | (Inr (Some item), w1) \<Rightarrow>
          (case py_getitem (PDict item) (Key ''size'') of
             Inl e \<Rightarrow> (Inl e, w1)
           | Inr sz \<Rightarrow>
          (case py_int lib sz of
             Inl e \<Rightarrow> (Inl e, w1)
           | Inr n \<Rightarrow>
          (case json_dumps (PDict (AList.update ''size'' (PInt n) item)) of
             Inl e \<Rightarrow> (Inl e, w1)
           | Inr dumped \<Rightarrow>
               (Inr \<lparr>statusCode = 200, body = Some dumped,
                     headers = Some [(''Content-Type'', ''application/json'')]\<rparr>, w1))))))"

text \<open>\<open>handle_api_gateway_event\<close>: the \<open>except\<close> clause prints the exception and
  answers 500.\<close>

definition handle_api_gateway_event :: "pylib \<Rightarrow> world \<Rightarrow> pyval \<Rightarrow> outcome" where
  "handle_api_gateway_event lib w event =
     (case handle_api_gateway_event_try lib w event of
        (Inl e, w') \<Rightarrow>
          (case json_dumps (PDict [(''error'', PStr ''Internal server error'')]) of
             Inl e' \<Rightarrow> (Inl e', w')
           | Inr dumped \<Rightarrow> (Inr \<lparr>statusCode = 500, body = Some dumped, headers = None\<rparr>, w'))
      | (Inr r, w') \<Rightarrow> (Inr r, w'))"

text \<open>
  \<open>lambda_handler\<close>: it prints \<open>json.dumps(event)\<close>, then tests \<open>'Records' in event\<close>,
  then \<open>'httpMethod' in event\<close>. The second argument (the execution context) is not used.
\<close>

definition lambda_handler :: "pylib \<Rightarrow> world \<Rightarrow> pyval \<Rightarrow> 'c \<Rightarrow> outcome" where
  "lambda_handler lib w event ctx =
     (case json_dumps event of
        Inl e \<Rightarrow> (Inl e, w)
      | Inr printed \<Rightarrow>
     (case py_in ''Records'' event of
        Inl e \<Rightarrow> (Inl e, w)
      | Inr True \<Rightarrow> handle_s3_event lib w event
      | Inr False \<Rightarrow>
     (case py_in ''httpMethod'' event of
        Inl e \<Rightarrow> (Inl e, w)
      | Inr True \<Rightarrow> handle_api_gateway_event lib w event
      | Inr False \<Rightarrow>
     (case json_dumps (PStr ''Unknown event source'') of
        Inl e \<Rightarrow> (Inl e, w)
      | Inr dumped \<Rightarrow> (Inr \<lparr>statusCode = 400, body = Some dumped, headers = None\<rparr>, w)))))"

subsection \<open>Notions used in the statements\<close>

text \<open>The first record of the notification \<open>event\<close> names bucket \<open>b\<close> and the (still
  encoded) object key \<open>k\<close>.\<close>

definition names :: "pyval \<Rightarrow> pyval \<Rightarrow> string \<Rightarrow> bool" where
  "names event b k =
     (py_path event [Key ''Records'', Idx 0, Key ''s3'', Key ''bucket'', Key ''name''] = Inr b
      \<and> py_path event [Key ''Records'', Idx 0, Key ''s3'', Key ''object'', Key ''key''] = Inr (PStr k))"

text \<open>The item \<open>handle_s3_event\<close> builds (lines 41 to 46), and the same item as the table
  hands it back.\<close>

definition image_item :: "pylib \<Rightarrow> string \<Rightarrow> int \<Rightarrow> string \<Rightarrow> datetime \<Rightarrow> (string \<times> pyval) list" where
  "image_item lib k len ctype modified =
     [(''imageName'', PStr k), (''size'', PInt len), (''contentType'', PStr ctype),
      (''lastModified'', PStr (isoformat lib modified))]"

definition stored_item :: "pylib \<Rightarrow> string \<Rightarrow> int \<Rightarrow> string \<Rightarrow> datetime \<Rightarrow> (string \<times> pyval) list" where
  "stored_item lib k len ctype modified =
     [(''imageName'', PStr k), (''size'', PDecimal len 0), (''contentType'', PStr ctype),
      (''lastModified'', PStr (isoformat lib modified))]"

text \<open>The three answers of the query handler.\<close>

definition found :: "pylib \<Rightarrow> string \<Rightarrow> int \<Rightarrow> string \<Rightarrow> datetime \<Rightarrow> response" where
  "found lib k len ctype modified =
     \<lparr>statusCode = 200,
      body = Some (JsonText (PDict (image_item lib k len ctype modified))),
      headers = Some [(''Content-Type'', ''application/json'')]\<rparr>"

definition image_not_found :: response where
  "image_not_found =
     \<lparr>statusCode = 404,
      body = Some (JsonText (PDict [(''error'', PStr ''Image not found'')])),
      headers = None\<rparr>"

definition internal_server_error :: response where
  "internal_server_error =
     \<lparr>statusCode = 500,
      body = Some (JsonText (PDict [(''error'', PStr ''Internal server error'')])),
      headers = None\<rparr>"

text \<open>The answer of the router to an envelope it does not recognise.\<close>

definition unknown_event_source :: response where
  "unknown_event_source =
     \<lparr>statusCode = 400, body = Some (JsonText (PStr ''Unknown event source'')), headers = None\<rparr>"

text \<open>The specification's reading of an ingestion envelope: its \<open>Records\<close> field is a
  list with at least one entry.\<close>

definition records_nonempty :: "pyval \<Rightarrow> bool" where
  "records_nonempty event =
     (case py_getitem event (Key ''Records'') of
        Inr (PList (r # rs)) \<Rightarrow> True
      | _ \<Rightarrow> False)"

text \<open>The specification's reading of "the envelope contains a records list": its
  \<open>Records\<close> field is a list.\<close>

definition records_list :: "pyval \<Rightarrow> bool" where
  "records_list event =
     (case py_getitem event (Key ''Records'') of
        Inr (PList rs) \<Rightarrow> True
      | _ \<Rightarrow> False)"

subsection \<open>The scenario of the specification\<close>

text \<open>
  Bucket \<open>imgs\<close> holds one object, \<open>a b.png\<close>, of 1024 bytes and type \<open>image/png\<close>,
  last modified on 2024-01-01 at 00:00:00; the table is empty and both services answer.
\<close>

definition example_lib :: pylib where
  "example_lib =
     \<lparr>isoformat = (\<lambda>t. if t = 1704067200000000 then ''2024-01-01T00:00:00''
                       else if t = 1704153600000000 then ''2024-01-02T00:00:00'' else []),
      int_of_str = (\<lambda>s. None)\<rparr>"

definition example_metadata :: head_object_output where
  "example_metadata =
     \<lparr>ContentLength = Some 1024, ContentType = Some ''image/png'',
      LastModified = Some 1704067200000000\<rparr>"

definition example_world :: world where
  "example_world =
     \<lparr>store = (\<lambda>b k. if b = PStr ''imgs'' \<and> k = ''a b.png''
                      then Inr example_metadata else Inl (ClientError ''404'')),
      rows = Map.empty,
      put_fault = (\<lambda>item. None),
      get_fault = (\<lambda>key. None),
      calls = []\<rparr>"

definition example_notification :: pyval where
  "example_notification =
     PDict [(''Records'',
       PList [PDict [(''s3'',
         PDict [(''bucket'', PDict [(''name'', PStr ''imgs'')]),
                (''object'', PDict [(''key'', PStr ''a%20b.png'')])])]])]"

definition example_lookup :: pyval where
  "example_lookup =
     PDict [(''httpMethod'', PStr ''GET''),
            (''pathParameters'', PDict [(''imageName'', PStr ''a b.png'')])]"

definition example_row :: "(string \<times> pyval) list" where
  "example_row =
     [(''imageName'', PStr ''a b.png''), (''size'', PDecimal 1024 0),
      (''contentType'', PStr ''image/png''), (''lastModified'', PStr ''2024-01-01T00:00:00'')]"

text \<open>A second upload of the same object, now 2048 bytes of type \<open>image/jpeg\<close>, last
  modified a day later; its notification writes the space of the key as \<open>+\<close>.\<close>

definition example_metadata2 :: head_object_output where
  "example_metadata2 =
     \<lparr>ContentLength = Some 2048, ContentType = Some ''image/jpeg'',
      LastModified = Some 1704153600000000\<rparr>"

definition example_notification2 :: pyval where
  "example_notification2 =
     PDict [(''Records'',
       PList [PDict [(''s3'',
         PDict [(''bucket'', PDict [(''name'', PStr ''imgs'')]),
                (''object'', PDict [(''key'', PStr ''a+b.png'')])])]])]"

text \<open>An envelope with an empty batch of records and an HTTP method.\<close>

definition empty_batch :: pyval where
  "empty_batch = PDict [(''Records'', PList []), (''httpMethod'', PStr ''GET'')]"

text \<open>An envelope whose \<open>Records\<close> field is a number, without an HTTP method.\<close>

definition number_records :: pyval where
  "number_records = PDict [(''Records'', PInt 5)]"

text \<open>A notification for the key \<open>caf\<close>, U+00E9, \<open>.png\<close>, whose second-last character
  takes two bytes and arrives as two escapes. Bucket \<open>imgs\<close> holds no such object.\<close>

definition example_notification3 :: pyval where
  "example_notification3 =
     PDict [(''Records'',
       PList [PDict [(''s3'',
         PDict [(''bucket'', PDict [(''name'', PStr ''imgs'')]),
                (''object'', PDict [(''key'', PStr ''caf%C3%A9.png'')])])]])]"

definition example_key3 :: string where
  "example_key3 =
     [CHR ''c'', CHR ''a'', CHR ''f'', CHR 0xC3, CHR 0xA9, CHR ''.'', CHR ''p'', CHR ''n'', CHR ''g'']"

subsection \<open>The store's encoding of object keys\<close>

text \<open>
  Modelled from the spec: the encoder of object keys, which runs in the object store
  and is not part of the program. The specification says that the store percent- and
  plus-encodes keys (\<open>my photo.jpg\<close> becomes \<open>my+photo.jpg\<close> or \<open>my%20photo.jpg\<close>).
  \<open>encodes k e\<close> holds when \<open>e\<close> is such an encoding of the key \<open>k\<close>: every byte of
  \<open>k\<close> is written as \<open>%\<close> and two hexadecimal digits (of either case), or, for a
  space, as \<open>+\<close>, or, for an ASCII character other than \<open>%\<close> and \<open>+\<close>, as itself.
\<close>

fun encodes :: "string \<Rightarrow> string \<Rightarrow> bool" where
  "encodes [] e = (e = [])"
| "encodes (c # k) e =
     (case e of
        [] \<Rightarrow> False
      | x # e1 \<Rightarrow>
          (x = c \<and> is_ascii c \<and> c \<noteq> CHR ''%'' \<and> c \<noteq> CHR ''+'' \<and> encodes k e1)
          \<or> (x = CHR ''+'' \<and> c = CHR '' '' \<and> encodes k e1)
          \<or> (x = CHR ''%'' \<and>
              (case e1 of
                 h1 # h2 # e2 \<Rightarrow>
                   is_hexdig h1 \<and> is_hexdig h2 \<and> char_of (16 * hexval h1 + hexval h2) = c
                   \<and> encodes k e2
               | _ \<Rightarrow> False)))"

text \<open>A byte sequence that is well-formed UTF-8, as the bytes of every \<open>str\<close> are.\<close>

fun utf8_ok :: "string \<Rightarrow> bool" where
  "utf8_ok [] = True"
| "utf8_ok (l # bs) =
     (if seq_len l = 1 then utf8_ok bs
      else if seq_len l = 2 then
        (case bs of b2 # r \<Rightarrow> second_ok l b2 \<and> utf8_ok r | _ \<Rightarrow> False)
      else if seq_len l = 3 then
        (case bs of
           b2 # b3 # r \<Rightarrow> second_ok l b2 \<and> is_continuation b3 \<and> utf8_ok r
         | _ \<Rightarrow> False)
      else if seq_len l = 4 then
        (case bs of
           b2 # b3 # b4 # r \<Rightarrow>
             second_ok l b2 \<and> is_continuation b3 \<and> is_continuation b4 \<and> utf8_ok r
         | _ \<Rightarrow> False)
      else False)"

text \<open>Text that needs no encoding: ASCII without \<open>%\<close> and \<open>+\<close>.\<close>

definition plain :: "string \<Rightarrow> bool" where
  "plain s = list_all (\<lambda>c. is_ascii c \<and> c \<noteq> CHR ''%'' \<and> c \<noteq> CHR ''+'') s"

text \<open>The first step of \<open>unquote_plus\<close>: \<open>string.replace('+', ' ')\<close>.\<close>

definition plus_space :: "string \<Rightarrow> string" where
  "plus_space s = map (\<lambda>c. if c = CHR ''+'' then CHR '' '' else c) s"

text \<open>Modelled from the spec: one such encoder, total on keys, which writes every byte
  as \<open>%\<close> and two upper-case hexadecimal digits.\<close>

definition hexdigit :: "nat \<Rightarrow> char" where
  "hexdigit n = ''0123456789ABCDEF'' ! n"

definition percent_encode :: "string \<Rightarrow> string" where
  "percent_encode k =
     concat (map (\<lambda>c. [CHR ''%'', hexdigit (of_char c div 16), hexdigit (of_char c mod 16)]) k)"

section \<open>Properties\<close>

subsection \<open>Shapes of the handlers' outcomes\<close>

lemma handle_s3_event_eq_try: "handle_s3_event lib w ev = handle_s3_event_try lib w ev"
  by (simp add: handle_s3_event_def split: prod.splits sum.splits)

lemma s3_try_response:
  "handle_s3_event_try lib w ev = (Inr r, w') \<Longrightarrow>
     r = \<lparr>statusCode = 200, body = None, headers = None\<rparr>"
  by (auto simp: handle_s3_event_try_def Let_def split: sum.splits prod.splits option.splits)

lemma s3_response:
  "handle_s3_event lib w ev = (Inr r, w') \<Longrightarrow>
     r = \<lparr>statusCode = 200, body = None, headers = None\<rparr>"
  by (simp add: handle_s3_event_eq_try s3_try_response)

lemma api_try_response:
  "handle_api_gateway_event_try lib w ev = (Inr r, w') \<Longrightarrow>
     body r \<noteq> None \<and> (statusCode r = 200 \<or> statusCode r = 404)"
  by (auto simp: handle_api_gateway_event_try_def json_dumps_def
      split: sum.splits prod.splits option.splits if_splits)

lemma api_response:
  "\<exists>r w'. handle_api_gateway_event lib w ev = (Inr r, w') \<and> body r \<noteq> None
     \<and> (statusCode r = 200 \<or> statusCode r = 404 \<or> statusCode r = 500)"
proof (cases "handle_api_gateway_event_try lib w ev")
  case (Pair res w')
  show ?thesis
  proof (cases res)
    case (Inl e)
    with Pair show ?thesis by (simp add: handle_api_gateway_event_def json_dumps_def)
  next
    case (Inr r)
    with Pair api_try_response[of lib w ev r w'] show ?thesis
      by (auto simp add: handle_api_gateway_event_def)
  qed
qed

lemma handlers_differ: "handle_s3_event lib w ev \<noteq> handle_api_gateway_event lib w ev"
proof
  assume eq: "handle_s3_event lib w ev = handle_api_gateway_event lib w ev"
  obtain r w' where a: "handle_api_gateway_event lib w ev = (Inr r, w')" and b: "body r \<noteq> None"
    using api_response by blast
  from eq a have "handle_s3_event lib w ev = (Inr r, w')" by simp
  then have "r = \<lparr>statusCode = 200, body = None, headers = None\<rparr>" by (rule s3_response)
  with b show False by simp
qed

lemma unknown_differs_s3: "handle_s3_event lib w ev \<noteq> (Inr unknown_event_source, w')"
  using s3_response[of lib w ev unknown_event_source w'] by (auto simp: unknown_event_source_def)

lemma unknown_differs_api: "handle_api_gateway_event lib w ev \<noteq> (Inr unknown_event_source, w')"
  using api_response[of lib w ev] by (auto simp: unknown_event_source_def)

subsection \<open>The router on a dict\<close>

lemma lambda_handler_dict:
  assumes "json_serializable (PDict kvs)"
  shows "lambda_handler lib w (PDict kvs) ctx =
           (if ''Records'' \<in> fst ` set kvs then handle_s3_event lib w (PDict kvs)
            else if ''httpMethod'' \<in> fst ` set kvs then handle_api_gateway_event lib w (PDict kvs)
            else (Inr unknown_event_source, w))"
  using assms by (simp add: lambda_handler_def json_dumps_def unknown_event_source_def)

lemma lambda_handler_world:
  "snd (lambda_handler lib w ev ctx) = w
   \<or> lambda_handler lib w ev ctx = handle_s3_event lib w ev
   \<or> lambda_handler lib w ev ctx = handle_api_gateway_event lib w ev"
  by (auto simp add: lambda_handler_def json_dumps_def split: sum.splits bool.splits)

lemma path_first_record:
  "map_of kvs ''Records'' = Some (PList (r # rest)) \<Longrightarrow>
     py_path (PDict kvs) (Key ''Records'' # Idx 0 # ks) = py_path r ks"
  by (simp add: py_index_def)

lemma s3_first_record_only:
  assumes "map_of kvs ''Records'' = Some (PList (r # rest))"
  shows "handle_s3_event lib w (PDict kvs) = handle_s3_event lib w (PDict [(''Records'', PList [r])])"
proof -
  have a: "\<And>ks. py_path (PDict kvs) (Key ''Records'' # Idx 0 # ks) = py_path r ks"
    using assms by (rule path_first_record)
  have b: "\<And>ks. py_path (PDict [(''Records'', PList [r])]) (Key ''Records'' # Idx 0 # ks) = py_path r ks"
    by (rule path_first_record [where rest = "[]"]) simp
  show ?thesis
    unfolding handle_s3_event_eq_try handle_s3_event_try_def a b ..
qed

subsection \<open>The query handler, step by step\<close>

lemma api_catches:
  "handle_api_gateway_event_try lib w ev = (Inl e, w') \<Longrightarrow>
     handle_api_gateway_event lib w ev = (Inr internal_server_error, w')"
  by (simp add: handle_api_gateway_event_def json_dumps_def internal_server_error_def)

lemma api_of_try_response:
  "handle_api_gateway_event_try lib w ev = (Inr r, w') \<Longrightarrow>
     handle_api_gateway_event lib w ev = (Inr r, w')"
  by (simp add: handle_api_gateway_event_def)

lemma api_try_no_parameter:
  "py_path ev [Key ''pathParameters'', Key ''imageName''] = Inl e \<Longrightarrow>
     handle_api_gateway_event_try lib w ev = (Inl e, w)"
  by (simp add: handle_api_gateway_event_try_def)

lemma api_try_get_fault:
  "py_path ev [Key ''pathParameters'', Key ''imageName''] = Inr k \<Longrightarrow> get_fault w k = Some e \<Longrightarrow>
     handle_api_gateway_event_try lib w ev = (Inl e, w\<lparr>calls := calls w @ [GetItem k]\<rparr>)"
  by (simp add: handle_api_gateway_event_try_def get_item_def)

lemma api_try_not_found:
  "py_path ev [Key ''pathParameters'', Key ''imageName''] = Inr (PStr k) \<Longrightarrow>
   get_fault w (PStr k) = None \<Longrightarrow> rows w k = None \<Longrightarrow>
     handle_api_gateway_event_try lib w ev =
       (Inr image_not_found, w\<lparr>calls := calls w @ [GetItem (PStr k)]\<rparr>)"
  by (simp add: handle_api_gateway_event_try_def get_item_def json_dumps_def image_not_found_def)

lemma api_found:
  assumes "py_path q [Key ''pathParameters'', Key ''imageName''] = Inr (PStr k)"
    and "get_fault w (PStr k) = None"
    and "rows w k = Some (stored_item lib k L C T)"
  shows "handle_api_gateway_event lib w q =
           (Inr (found lib k L C T), w\<lparr>calls := calls w @ [GetItem (PStr k)]\<rparr>)"
  using assms
  by (simp add: handle_api_gateway_event_def handle_api_gateway_event_try_def get_item_def
      stored_item_def found_def image_item_def json_dumps_def)

subsection \<open>The ingestion handler, step by step\<close>

lemma s3_store_fails:
  assumes "names ev b K" and "store w b (unquote_plus K) = Inl e"
  shows "handle_s3_event lib w ev = (Inl e, w\<lparr>calls := calls w @ [HeadObject b (unquote_plus K)]\<rparr>)"
  using assms by (simp add: names_def handle_s3_event_eq_try handle_s3_event_try_def head_object_def)

lemma s3_field_missing:
  assumes "names ev b K" and "store w b (unquote_plus K) = Inr m"
    and "ContentLength m = None \<or> ContentType m = None \<or> LastModified m = None"
  shows "handle_s3_event lib w ev = (Inl KeyError, w\<lparr>calls := calls w @ [HeadObject b (unquote_plus K)]\<rparr>)"
  using assms
  by (auto simp add: names_def handle_s3_event_eq_try handle_s3_event_try_def head_object_def
      split: option.splits)

lemma s3_put_fails:
  assumes "names ev b K" and "store w b (unquote_plus K) = Inr m"
    and "ContentLength m = Some L" and "ContentType m = Some C" and "LastModified m = Some T"
    and "put_fault w (image_item lib (unquote_plus K) L C T) = Some e"
  shows "handle_s3_event lib w ev =
          (Inl e, w\<lparr>calls := calls w @ [HeadObject b (unquote_plus K),
                                         PutItem (image_item lib (unquote_plus K) L C T)]\<rparr>)"
  using assms
  by (simp add: names_def handle_s3_event_eq_try handle_s3_event_try_def head_object_def
      put_item_def image_item_def)

lemma s3_put_succeeds:
  assumes "names ev b K" and "store w b (unquote_plus K) = Inr m"
    and "ContentLength m = Some L" and "ContentType m = Some C" and "LastModified m = Some T"
    and "put_fault w (image_item lib (unquote_plus K) L C T) = None"
  shows "handle_s3_event lib w ev =
          (Inr \<lparr>statusCode = 200, body = None, headers = None\<rparr>,
           w\<lparr>calls := calls w @ [HeadObject b (unquote_plus K),
                                  PutItem (image_item lib (unquote_plus K) L C T)],
             rows := (rows w)(unquote_plus K \<mapsto> stored_item lib (unquote_plus K) L C T)\<rparr>)"
  using assms
  by (simp add: names_def handle_s3_event_eq_try handle_s3_event_try_def head_object_def
      put_item_def image_item_def stored_item_def)

lemma s3_success_steps:
  assumes "handle_s3_event lib w ev = (Inr r, w')"
  shows "\<exists>b K m L C T. names ev b K \<and> store w b (unquote_plus K) = Inr m
            \<and> ContentLength m = Some L \<and> ContentType m = Some C \<and> LastModified m = Some T
            \<and> put_fault w (image_item lib (unquote_plus K) L C T) = None"
proof -
  from assms have t: "handle_s3_event_try lib w ev = (Inr r, w')" by (simp add: handle_s3_event_eq_try)
  obtain b where b: "py_path ev [Key ''Records'', Idx 0, Key ''s3'', Key ''bucket'', Key ''name''] = Inr b"
    using t by (cases "py_path ev [Key ''Records'', Idx 0, Key ''s3'', Key ''bucket'', Key ''name'']")
      (simp_all add: handle_s3_event_try_def)
  obtain kv where kv: "py_path ev [Key ''Records'', Idx 0, Key ''s3'', Key ''object'', Key ''key''] = Inr kv"
    using t b by (cases "py_path ev [Key ''Records'', Idx 0, Key ''s3'', Key ''object'', Key ''key'']")
      (simp_all add: handle_s3_event_try_def)
  obtain K where K: "kv = PStr K"
    using t b kv by (cases kv) (simp_all add: handle_s3_event_try_def)
  obtain m where m: "store w b (unquote_plus K) = Inr m"
    using t b kv K by (cases "store w b (unquote_plus K)")
      (simp_all add: handle_s3_event_try_def head_object_def)
  obtain L where L: "ContentLength m = Some L"
    using t b kv K m by (cases "ContentLength m") (simp_all add: handle_s3_event_try_def head_object_def)
  obtain C where C: "ContentType m = Some C"
    using t b kv K m L by (cases "ContentType m") (simp_all add: handle_s3_event_try_def head_object_def)
  obtain T where T: "LastModified m = Some T"
    using t b kv K m L C by (cases "LastModified m") (simp_all add: handle_s3_event_try_def head_object_def)
  have n: "names ev b K" using b kv K by (simp add: names_def)
  have "put_fault w (image_item lib (unquote_plus K) L C T) = None"
  proof (cases "put_fault w (image_item lib (unquote_plus K) L C T)")
    case None then show ?thesis .
  next
    case (Some e)
    from s3_put_fails [OF n m L C T Some] assms show ?thesis by simp
  qed
  with n m L C T show ?thesis by blast
qed

lemma s3_success_row:
  assumes n: "names ev b K" and m: "store w b (unquote_plus K) = Inr m"
    and L: "ContentLength m = Some L" and C: "ContentType m = Some C" and T: "LastModified m = Some T"
    and ok: "handle_s3_event lib w ev = (Inr r, w1)"
  shows "rows w1 (unquote_plus K) = Some (stored_item lib (unquote_plus K) L C T)"
proof (cases "put_fault w (image_item lib (unquote_plus K) L C T)")
  case None
  from s3_put_succeeds [OF n m L C T None] ok show ?thesis by auto
next
  case (Some e)
  from s3_put_fails [OF n m L C T Some] ok show ?thesis by simp
qed

subsection \<open>The scenario, evaluated\<close>

lemma example_key: "unquote_plus ''a%20b.png'' = ''a b.png''"
  by code_simp

lemma example_names: "names example_notification (PStr ''imgs'') ''a%20b.png''"
  by (simp add: names_def example_notification_def py_index_def)

lemma example_store:
  "store example_world (PStr ''imgs'') (unquote_plus ''a%20b.png'') = Inr example_metadata"
  by (simp add: example_key example_world_def)

lemma example_isoformat: "isoformat example_lib 1704067200000000 = ''2024-01-01T00:00:00''"
  by (simp add: example_lib_def)

lemma example_ingestion:
  "handle_s3_event example_lib example_world example_notification =
     (Inr \<lparr>statusCode = 200, body = None, headers = None\<rparr>,
      example_world\<lparr>calls := [HeadObject (PStr ''imgs'') ''a b.png'',
                               PutItem (image_item example_lib ''a b.png'' 1024 ''image/png'' 1704067200000000)],
                     rows := [''a b.png'' \<mapsto> example_row]\<rparr>)"
proof -
  have p: "put_fault example_world
             (image_item example_lib (unquote_plus ''a%20b.png'') 1024 ''image/png'' 1704067200000000) = None"
    by (simp add: example_world_def)
  have c: "calls example_world = []" "rows example_world = Map.empty"
    by (simp_all add: example_world_def)
  show ?thesis
    using s3_put_succeeds [OF example_names example_store _ _ _ p]
    by (simp add: example_metadata_def example_key c example_isoformat example_row_def stored_item_def)
qed

subsection \<open>Decoding an encoded key\<close>

lemma split_on_not_Nil: "split_on d s \<noteq> []"
  by (induction s) (auto split: list.splits)

lemma split_on_single: "split_on d s = [b] \<Longrightarrow> b = s"
proof (induction s arbitrary: b)
  case Nil then show ?case by simp
next
  case (Cons c s)
  then show ?case
    using split_on_not_Nil [of d s] by (auto split: if_splits list.splits)
qed

lemma split_on_no_delim: "d \<notin> set s \<Longrightarrow> split_on d s = [s]"
  by (induction s) auto

lemma unquote_impl_plain: "CHR ''%'' \<notin> set s \<Longrightarrow> unquote_impl s = s"
  by (simp add: unquote_impl_def split_on_no_delim)

lemma unquote_impl_join:
  "unquote_impl s =
     (case split_on (CHR ''%'') s of [] \<Rightarrow> [] | b0 # bits \<Rightarrow> b0 @ concat (map unquote_item bits))"
  using split_on_not_Nil [of "CHR ''%''" s] split_on_single [of "CHR ''%''" s]
  by (auto simp add: unquote_impl_def split: list.splits)

lemma unquote_impl_literal:
  "c \<noteq> CHR ''%'' \<Longrightarrow> unquote_impl (c # s) = c # unquote_impl s"
  using split_on_not_Nil [of "CHR ''%''" s]
  by (auto simp add: unquote_impl_join split: list.splits)

lemma hexdig_not_percent: "is_hexdig h \<Longrightarrow> h \<noteq> CHR ''%''"
  by (auto simp add: is_hexdig_def)

lemma hexdig_not_plus: "is_hexdig h \<Longrightarrow> h \<noteq> CHR ''+''"
  by (auto simp add: is_hexdig_def)

lemma hexdig_ascii: "is_hexdig h \<Longrightarrow> is_ascii h"
  by (auto simp add: is_hexdig_def is_ascii_def)

lemma unquote_impl_escape:
  assumes "is_hexdig a" and "is_hexdig b"
  shows "unquote_impl (CHR ''%'' # a # b # s) = char_of (16 * hexval a + hexval b) # unquote_impl s"
  using assms split_on_not_Nil [of "CHR ''%''" s] hexdig_not_percent [of a] hexdig_not_percent [of b]
  by (auto simp add: unquote_impl_join split: list.splits)

lemma encodes_Cons_cases:
  assumes "encodes (c # k) e"
  obtains
    (lit) e1 where "e = c # e1" "is_ascii c" "c \<noteq> CHR ''%''" "c \<noteq> CHR ''+''" "encodes k e1"
  | (plus) e1 where "e = CHR ''+'' # e1" "c = CHR '' ''" "encodes k e1"
  | (esc) h1 h2 e2 where "e = CHR ''%'' # h1 # h2 # e2" "is_hexdig h1" "is_hexdig h2"
      "char_of (16 * hexval h1 + hexval h2) = c" "encodes k e2"
proof (cases e)
  case Nil
  with assms show ?thesis by simp
next
  case (Cons x e1)
  with assms have d:
    "(x = c \<and> is_ascii c \<and> c \<noteq> CHR ''%'' \<and> c \<noteq> CHR ''+'' \<and> encodes k e1)
     \<or> (x = CHR ''+'' \<and> c = CHR '' '' \<and> encodes k e1)
     \<or> (x = CHR ''%'' \<and>
          (case e1 of
             h1 # h2 # e2 \<Rightarrow>
               is_hexdig h1 \<and> is_hexdig h2 \<and> char_of (16 * hexval h1 + hexval h2) = c
               \<and> encodes k e2
           | _ \<Rightarrow> False))"
    by simp
  then consider
      (a) "x = c" "is_ascii c" "c \<noteq> CHR ''%''" "c \<noteq> CHR ''+''" "encodes k e1"
    | (b) "x = CHR ''+''" "c = CHR '' ''" "encodes k e1"
    | (c) "x = CHR ''%''" "(case e1 of
             h1 # h2 # e2 \<Rightarrow>
               is_hexdig h1 \<and> is_hexdig h2 \<and> char_of (16 * hexval h1 + hexval h2) = c
               \<and> encodes k e2
           | _ \<Rightarrow> False)"
    by blast
  then show ?thesis
  proof cases
    case a with Cons lit show ?thesis by simp
  next
    case b with Cons plus show ?thesis by simp
  next
    case c
    then obtain h1 h2 e2 where "e1 = h1 # h2 # e2" "is_hexdig h1" "is_hexdig h2"
      "char_of (16 * hexval h1 + hexval h2) = c" "encodes k e2"
      by (cases e1; cases "tl e1") auto
    with c Cons esc show ?thesis by simp
  qed
qed

lemma encodes_unquote_impl: "encodes k e \<Longrightarrow> unquote_impl (plus_space e) = k"
proof (induction k arbitrary: e)
  case Nil
  then show ?case by (simp add: plus_space_def unquote_impl_def)
next
  case (Cons c k)
  from Cons.prems show ?case
  proof (cases rule: encodes_Cons_cases)
    case (lit e1)
    with Cons.IH [of e1] show ?thesis
      using unquote_impl_literal [of c "plus_space e1"] by (simp add: plus_space_def)
  next
    case (plus e1)
    with Cons.IH [of e1] show ?thesis
      using unquote_impl_literal [of "CHR '' ''" "plus_space e1"] by (simp add: plus_space_def)
  next
    case (esc h1 h2 e2)
    with Cons.IH [of e2] show ?thesis
      using unquote_impl_escape [of h1 h2 "plus_space e2"] hexdig_not_plus [of h1] hexdig_not_plus [of h2]
      by (simp add: plus_space_def)
  qed
qed

lemma encodes_ascii: "encodes k e \<Longrightarrow> list_all is_ascii e"
proof (induction k arbitrary: e)
  case Nil then show ?case by simp
next
  case (Cons c k)
  from Cons.prems show ?case
  proof (cases rule: encodes_Cons_cases)
    case (lit e1)
    with Cons.IH [of e1] show ?thesis by simp
  next
    case (plus e1)
    with Cons.IH [of e1] show ?thesis by (simp add: is_ascii_def)
  next
    case (esc h1 h2 e2)
    with Cons.IH [of e2] show ?thesis by (simp add: hexdig_ascii) (simp add: is_ascii_def)
  qed
qed

lemma plus_space_ascii: "list_all is_ascii e \<Longrightarrow> list_all is_ascii (plus_space e)"
  by (induction e) (auto simp add: plus_space_def is_ascii_def)

lemma ascii_runs_ascii: "list_all is_ascii s \<Longrightarrow> s \<noteq> [] \<Longrightarrow> ascii_runs s = [(True, s)]"
proof (induction s)
  case Nil then show ?case by simp
next
  case (Cons c s)
  then show ?case by (cases s) auto
qed

lemma utf8_replace_1: "seq_len l = 1 \<Longrightarrow> utf8_replace (l # bs) = l # utf8_replace bs"
  by simp

lemma utf8_replace_2:
  "seq_len l = 2 \<Longrightarrow> second_ok l b2 \<Longrightarrow> utf8_replace (l # b2 # r) = l # b2 # utf8_replace r"
  by simp

lemma utf8_replace_3:
  "seq_len l = 3 \<Longrightarrow> second_ok l b2 \<Longrightarrow> is_continuation b3 \<Longrightarrow>
     utf8_replace (l # b2 # b3 # r) = l # b2 # b3 # utf8_replace r"
  by simp

lemma utf8_replace_4:
  "seq_len l = 4 \<Longrightarrow> second_ok l b2 \<Longrightarrow> is_continuation b3 \<Longrightarrow> is_continuation b4 \<Longrightarrow>
     utf8_replace (l # b2 # b3 # b4 # r) = l # b2 # b3 # b4 # utf8_replace r"
  by simp

lemma utf8_replace_ok: "utf8_ok s \<Longrightarrow> utf8_replace s = s"
proof (induction s rule: utf8_ok.induct)
  case 1 then show ?case by simp
next
  case (2 l bs)
  consider (one) "seq_len l = 1" | (two) "seq_len l = 2" | (three) "seq_len l = 3"
    | (four) "seq_len l = 4" | (bad) "seq_len l \<noteq> 1" "seq_len l \<noteq> 2" "seq_len l \<noteq> 3" "seq_len l \<noteq> 4"
    by blast
  then show ?case
  proof cases
    case one
    with "2.prems" have "utf8_ok bs" by simp
    with "2.IH"(1) one have "utf8_replace bs = bs" by simp
    with one show ?thesis by (simp only: utf8_replace_1)
  next
    case two
    with "2.prems" obtain b2 r where bs: "bs = b2 # r" and s: "second_ok l b2" and ok: "utf8_ok r"
      by (cases bs) auto
    from "2.IH"(2) [OF _ two bs] two ok have "utf8_replace r = r" by simp
    with two s bs show ?thesis by (simp only: utf8_replace_2)
  next
    case three
    with "2.prems" obtain b2 b3 r where bs: "bs = b2 # b3 # r" and s: "second_ok l b2"
      and c3: "is_continuation b3" and ok: "utf8_ok r"
      by (cases bs; cases "tl bs") auto
    from "2.IH"(3) [OF _ _ three bs refl] three ok have "utf8_replace r = r" by simp
    with three s c3 bs show ?thesis by (simp only: utf8_replace_3)
  next
    case four
    with "2.prems" obtain b2 b3 b4 r where bs: "bs = b2 # b3 # b4 # r" and s: "second_ok l b2"
      and c3: "is_continuation b3" and c4: "is_continuation b4" and ok: "utf8_ok r"
      by (cases bs; cases "tl bs"; cases "tl (tl bs)") auto
    from "2.IH"(4) [OF _ _ _ four bs refl refl] four ok have "utf8_replace r = r" by simp
    with four s c3 c4 bs show ?thesis by (simp only: utf8_replace_4)
  next
    case bad
    with "2.prems" show ?thesis by simp
  qed
qed

lemma unquote_ascii:
  assumes "list_all is_ascii s" and "utf8_ok (unquote_impl s)"
  shows "unquote s = unquote_impl s"
proof (cases "CHR ''%'' \<in> set s")
  case False
  then show ?thesis by (simp add: unquote_def unquote_impl_plain)
next
  case True
  then have "s \<noteq> []" by auto
  with assms(1) have "ascii_runs s = [(True, s)]" by (rule ascii_runs_ascii)
  with True assms(2) show ?thesis by (simp add: unquote_def utf8_replace_ok)
qed

lemma unquote_plus_encodes:
  assumes "utf8_ok k" and "encodes k e"
  shows "unquote_plus e = k"
proof -
  have a: "list_all is_ascii (plus_space e)"
    using assms(2) by (intro plus_space_ascii encodes_ascii)
  have b: "unquote_impl (plus_space e) = k" using assms(2) by (rule encodes_unquote_impl)
  from unquote_ascii [OF a] assms(1) b show ?thesis
    by (simp add: unquote_plus_def plus_space_def)
qed

lemma hexdigit_props:
  assumes "n < 16"
  shows "is_hexdig (hexdigit n) \<and> hexval (hexdigit n) = n"
proof -
  have "\<forall>m \<in> set [0..<16]. is_hexdig (hexdigit m) \<and> hexval (hexdigit m) = m"
    by code_simp
  moreover from assms have "n \<in> set [0..<16]" by simp
  ultimately show ?thesis by blast
qed

lemma byte_of_hexdigits:
  "char_of (16 * hexval (hexdigit (of_char c div 16)) + hexval (hexdigit (of_char c mod 16))) = c"
proof -
  have "(of_char c :: nat) mod 256 < 256" by simp
  then have "(of_char c :: nat) < 256" by (simp only: of_char_mod_256)
  then have a: "(of_char c :: nat) div 16 < 16" by arith
  have b: "(of_char c :: nat) mod 16 < 16" by simp
  from hexdigit_props [OF a] hexdigit_props [OF b] show ?thesis by simp
qed

lemma encodes_percent_encode: "encodes k (percent_encode k)"
proof (induction k)
  case Nil then show ?case by (simp add: percent_encode_def)
next
  case (Cons c k)
  have a: "(of_char c :: nat) div 16 < 16"
  proof -
    have "(of_char c :: nat) mod 256 < 256" by simp
    then have "(of_char c :: nat) < 256" by (simp only: of_char_mod_256)
    then show ?thesis by arith
  qed
  have b: "(of_char c :: nat) mod 16 < 16" by simp
  have p: "percent_encode (c # k) =
             CHR ''%'' # hexdigit (of_char c div 16) # hexdigit (of_char c mod 16) # percent_encode k"
    by (simp add: percent_encode_def)
  show ?case
    unfolding p using Cons hexdigit_props [OF a] hexdigit_props [OF b] byte_of_hexdigits [of c]
    by simp
qed

lemma ascii_utf8_ok: "list_all is_ascii s \<Longrightarrow> utf8_ok s"
  by (induction s) (simp_all add: is_ascii_def seq_len_def)

lemma plain_ascii: "plain s \<Longrightarrow> list_all is_ascii s"
  by (induction s) (simp_all add: plain_def)

lemma encodes_plain_append: "plain a \<Longrightarrow> encodes k e \<Longrightarrow> encodes (a @ k) (a @ e)"
  by (induction a) (simp_all add: plain_def)

lemma space_escape: "char_of (16 * hexval CHR ''2'' + hexval CHR ''0'') = CHR '' ''"
  by code_simp

lemma encodes_plain: "plain s \<Longrightarrow> encodes s s"
  using encodes_plain_append [of s "[]" "[]"] by simp

lemma unquote_plus_space:
  assumes "plain a" and "plain b"
  shows "unquote_plus (a @ ''+'' @ b) = a @ '' '' @ b"
    and "unquote_plus (a @ ''%20'' @ b) = a @ '' '' @ b"
proof -
  have u: "utf8_ok (a @ '' '' @ b)"
    using assms by (intro ascii_utf8_ok) (simp add: plain_ascii is_ascii_def)
  have "encodes ('' '' @ b) (''+'' @ b)" using encodes_plain [OF assms(2)] by simp
  with assms(1) have "encodes (a @ '' '' @ b) (a @ ''+'' @ b)" by (rule encodes_plain_append)
  with u show "unquote_plus (a @ ''+'' @ b) = a @ '' '' @ b" by (rule unquote_plus_encodes)
  have "encodes ('' '' @ b) (''%20'' @ b)"
    using encodes_plain [OF assms(2)] space_escape by (simp add: is_hexdig_def)
  with assms(1) have "encodes (a @ '' '' @ b) (a @ ''%20'' @ b)" by (rule encodes_plain_append)
  with u show "unquote_plus (a @ ''%20'' @ b) = a @ '' '' @ b" by (rule unquote_plus_encodes)
qed

subsection \<open>The four outcomes of an ingestion\<close>

lemma s3_outcome_cases:
  assumes n: "names ev b K"
  obtains
    (store_fails) e where "store w b (unquote_plus K) = Inl e"
      "handle_s3_event lib w ev = (Inl e, w\<lparr>calls := calls w @ [HeadObject b (unquote_plus K)]\<rparr>)"
  | (field_missing) m where "store w b (unquote_plus K) = Inr m"
      "ContentLength m = None \<or> ContentType m = None \<or> LastModified m = None"
      "handle_s3_event lib w ev = (Inl KeyError, w\<lparr>calls := calls w @ [HeadObject b (unquote_plus K)]\<rparr>)"
  | (put_fails) m L C T e where "store w b (unquote_plus K) = Inr m"
      "ContentLength m = Some L" "ContentType m = Some C" "LastModified m = Some T"
      "put_fault w (image_item lib (unquote_plus K) L C T) = Some e"
      "handle_s3_event lib w ev =
          (Inl e, w\<lparr>calls := calls w @ [HeadObject b (unquote_plus K),
                                         PutItem (image_item lib (unquote_plus K) L C T)]\<rparr>)"
  | (written) m L C T where "store w b (unquote_plus K) = Inr m"
      "ContentLength m = Some L" "ContentType m = Some C" "LastModified m = Some T"
      "put_fault w (image_item lib (unquote_plus K) L C T) = None"
      "handle_s3_event lib w ev =
          (Inr \<lparr>statusCode = 200, body = None, headers = None\<rparr>,
           w\<lparr>calls := calls w @ [HeadObject b (unquote_plus K),
                                  PutItem (image_item lib (unquote_plus K) L C T)],
             rows := (rows w)(unquote_plus K \<mapsto> stored_item lib (unquote_plus K) L C T)\<rparr>)"
proof (cases "store w b (unquote_plus K)")
  case (Inl e)
  with s3_store_fails [OF n Inl, of lib] store_fails show ?thesis by blast
next
  case (Inr m)
  show ?thesis
  proof (cases "ContentLength m = None \<or> ContentType m = None \<or> LastModified m = None")
    case True
    with s3_field_missing [OF n Inr True, of lib] field_missing Inr show ?thesis by blast
  next
    case False
    then obtain L C T where f: "ContentLength m = Some L" "ContentType m = Some C"
      "LastModified m = Some T" by auto
    show ?thesis
    proof (cases "put_fault w (image_item lib (unquote_plus K) L C T)")
      case None
      from s3_put_succeeds [OF n Inr f None] written [OF Inr f None] show ?thesis by blast
    next
      case (Some e)
      from s3_put_fails [OF n Inr f Some] put_fails [OF Inr f Some] show ?thesis by blast
    qed
  qed
qed

subsection \<open>The second upload of the scenario\<close>

lemma example_key2: "unquote_plus ''a+b.png'' = ''a b.png''"
  by code_simp

lemma example_names2: "names example_notification2 (PStr ''imgs'') ''a+b.png''"
  by (simp add: names_def example_notification2_def py_index_def)

section \<open>The claims\<close>

text \<open>
  C1: after a successful ingestion of key \<open>K\<close> whose metadata are length \<open>L\<close>, type \<open>C\<close>
  and last-modified time \<open>T\<close>, a lookup of the decoded \<open>K\<close> (on any later state of the
  table that still holds that row, the table answering) returns status 200, the header
  \<open>Content-Type: application/json\<close> and a JSON body whose \<open>imageName\<close> is the decoded
  \<open>K\<close>, whose \<open>size\<close> is the integer \<open>L\<close>, whose \<open>contentType\<close> is \<open>C\<close> and whose
  \<open>lastModified\<close> is the ISO rendering of \<open>T\<close>.
\<close>

theorem ingest_then_lookup:
  assumes "names ev b K" and "store w b (unquote_plus K) = Inr m"
    and "ContentLength m = Some L" and "ContentType m = Some C" and "LastModified m = Some T"
    and "handle_s3_event lib w ev = (Inr r, w1)"
    and "rows w2 (unquote_plus K) = rows w1 (unquote_plus K)"
    and "get_fault w2 (PStr (unquote_plus K)) = None"
    and "py_path q [Key ''pathParameters'', Key ''imageName''] = Inr (PStr (unquote_plus K))"
  shows "fst (handle_api_gateway_event lib w2 q) =
           Inr \<lparr>statusCode = 200,
                body = Some (JsonText (PDict
                  [(''imageName'', PStr (unquote_plus K)), (''size'', PInt L),
                   (''contentType'', PStr C), (''lastModified'', PStr (isoformat lib T))])),
                headers = Some [(''Content-Type'', ''application/json'')]\<rparr>"
proof -
  have "rows w1 (unquote_plus K) = Some (stored_item lib (unquote_plus K) L C T)"
    using assms(1-6) by (rule s3_success_row)
  with assms(7) have "rows w2 (unquote_plus K) = Some (stored_item lib (unquote_plus K) L C T)"
    by simp
  from api_found [OF assms(9) assms(8) this] show ?thesis
    by (simp add: found_def image_item_def)
qed

theorem ingest_then_lookup_witness:
  "names example_notification (PStr ''imgs'') ''a%20b.png''
   \<and> store example_world (PStr ''imgs'') (unquote_plus ''a%20b.png'') = Inr example_metadata
   \<and> fst (handle_s3_event example_lib example_world example_notification)
        = Inr \<lparr>statusCode = 200, body = None, headers = None\<rparr>
   \<and> py_path example_lookup [Key ''pathParameters'', Key ''imageName''] = Inr (PStr ''a b.png'')
   \<and> fst (handle_api_gateway_event example_lib
             (snd (handle_s3_event example_lib example_world example_notification)) example_lookup) =
           Inr \<lparr>statusCode = 200,
                body = Some (JsonText (PDict
                  [(''imageName'', PStr ''a b.png''), (''size'', PInt 1024),
                   (''contentType'', PStr ''image/png''),
                   (''lastModified'', PStr ''2024-01-01T00:00:00'')])),
                headers = Some [(''Content-Type'', ''application/json'')]\<rparr>"
proof -
  let ?w1 = "snd (handle_s3_event example_lib example_world example_notification)"
  have ok: "handle_s3_event example_lib example_world example_notification =
              (Inr \<lparr>statusCode = 200, body = None, headers = None\<rparr>, ?w1)"
    by (simp add: example_ingestion)
  have g: "get_fault ?w1 (PStr (unquote_plus ''a%20b.png'')) = None"
    unfolding example_ingestion by (simp add: example_world_def)
  have q: "py_path example_lookup [Key ''pathParameters'', Key ''imageName'']
             = Inr (PStr (unquote_plus ''a%20b.png''))"
    by (simp add: example_lookup_def example_key)
  have f: "fst (handle_s3_event example_lib example_world example_notification)
             = Inr \<lparr>statusCode = 200, body = None, headers = None\<rparr>"
    by (simp add: example_ingestion)
  have p: "py_path example_lookup [Key ''pathParameters'', Key ''imageName''] = Inr (PStr ''a b.png'')"
    by (simp add: example_lookup_def)
  from ingest_then_lookup [OF example_names example_store _ _ _ ok refl g q,
      of 1024 "''image/png''" 1704067200000000]
  have "fst (handle_api_gateway_event example_lib ?w1 example_lookup) =
           Inr \<lparr>statusCode = 200,
                body = Some (JsonText (PDict
                  [(''imageName'', PStr ''a b.png''), (''size'', PInt 1024),
                   (''contentType'', PStr ''image/png''),
                   (''lastModified'', PStr ''2024-01-01T00:00:00'')])),
                headers = Some [(''Content-Type'', ''application/json'')]\<rparr>"
    by (simp add: example_metadata_def example_key example_isoformat)
  with example_names example_store f p show ?thesis by blast
qed

text \<open>
  C3, as the specification states it, fails: the router sends an envelope to the
  ingestion handler as soon as it has a \<open>Records\<close> key, also when the value under that
  key is an empty list. On such an envelope that also carries an HTTP method the router
  runs the ingestion handler (which raises \<open>IndexError\<close>), not the query handler.
\<close>

theorem router_dispatch_counterexample:
  "\<not> records_nonempty empty_batch
   \<and> py_in ''httpMethod'' empty_batch = Inr True
   \<and> lambda_handler example_lib example_world empty_batch () =
       handle_s3_event example_lib example_world empty_batch
   \<and> lambda_handler example_lib example_world empty_batch () = (Inl IndexError, example_world)
   \<and> lambda_handler example_lib example_world empty_batch () \<noteq>
       handle_api_gateway_event example_lib example_world empty_batch"
proof -
  have s: "json_serializable empty_batch" by (simp add: empty_batch_def)
  have l: "lambda_handler example_lib example_world empty_batch () =
             handle_s3_event example_lib example_world empty_batch"
    by (simp add: lambda_handler_def json_dumps_def empty_batch_def)
  have i: "handle_s3_event example_lib example_world empty_batch = (Inl IndexError, example_world)"
    by (simp add: handle_s3_event_eq_try handle_s3_event_try_def empty_batch_def py_index_def)
  have n: "\<not> records_nonempty empty_batch"
    by (simp add: records_nonempty_def empty_batch_def)
  have h: "py_in ''httpMethod'' empty_batch = Inr True" by (simp add: empty_batch_def)
  from l i n h handlers_differ [of example_lib example_world empty_batch] show ?thesis by simp
qed

text \<open>
  C3, amended: for every JSON envelope that is a dict, the router runs the ingestion
  handler exactly when the envelope has a \<open>Records\<close> key, whatever is stored under it,
  and the query handler exactly when it has no \<open>Records\<close> key and has an \<open>httpMethod\<close>
  key; any other envelope reaches neither handler. The router passes the whole envelope
  on; the ingestion handler reads only the first entry of \<open>Records\<close>, so its outcome is
  the one it has on that entry alone.
\<close>

theorem router_dispatch:
  assumes "json_serializable (PDict kvs)"
  shows "((lambda_handler lib w (PDict kvs) ctx = handle_s3_event lib w (PDict kvs))
            = (''Records'' \<in> fst ` set kvs))
       \<and> ((lambda_handler lib w (PDict kvs) ctx = handle_api_gateway_event lib w (PDict kvs))
            = (''Records'' \<notin> fst ` set kvs \<and> ''httpMethod'' \<in> fst ` set kvs))
       \<and> (\<forall>r rest. map_of kvs ''Records'' = Some (PList (r # rest)) \<longrightarrow>
            handle_s3_event lib w (PDict kvs) =
              handle_s3_event lib w (PDict [(''Records'', PList [r])]))"
proof -
  let ?ev = "PDict kvs"
  note h = lambda_handler_dict [OF assms, of lib w ctx]
  note ne = handlers_differ [of lib w ?ev] handlers_differ [of lib w ?ev, symmetric]
    unknown_differs_s3 [of lib w ?ev, symmetric] unknown_differs_api [of lib w ?ev, symmetric]
  have a: "(lambda_handler lib w ?ev ctx = handle_s3_event lib w ?ev) = (''Records'' \<in> fst ` set kvs)"
    unfolding h using ne by (simp del: image_iff)
  have b: "(lambda_handler lib w ?ev ctx = handle_api_gateway_event lib w ?ev)
           = (''Records'' \<notin> fst ` set kvs \<and> ''httpMethod'' \<in> fst ` set kvs)"
    unfolding h using ne by (simp del: image_iff)
  have c: "\<forall>r rest. map_of kvs ''Records'' = Some (PList (r # rest)) \<longrightarrow>
            handle_s3_event lib w ?ev = handle_s3_event lib w (PDict [(''Records'', PList [r])])"
    by (intro allI impI) (rule s3_first_record_only)
  from a b c show ?thesis by blast
qed

theorem router_dispatch_witness:
  "json_serializable empty_batch
   \<and> lambda_handler example_lib example_world empty_batch () =
       handle_s3_event example_lib example_world empty_batch
   \<and> lambda_handler example_lib example_world empty_batch () \<noteq>
       handle_api_gateway_event example_lib example_world empty_batch"
proof -
  let ?kvs = "[(''Records'', PList []), (''httpMethod'', PStr ''GET'')]"
  have s: "json_serializable (PDict ?kvs)" by simp
  note d = router_dispatch [OF s, of example_lib example_world "()"]
  from d have "(lambda_handler example_lib example_world (PDict ?kvs) ()
                  = handle_s3_event example_lib example_world (PDict ?kvs))
               = (''Records'' \<in> fst ` set ?kvs)"
    by (rule conjunct1)
  then have a: "lambda_handler example_lib example_world (PDict ?kvs) ()
                  = handle_s3_event example_lib example_world (PDict ?kvs)"
    by simp
  from d have "(lambda_handler example_lib example_world (PDict ?kvs) ()
                  = handle_api_gateway_event example_lib example_world (PDict ?kvs))
               = (''Records'' \<notin> fst ` set ?kvs \<and> ''httpMethod'' \<in> fst ` set ?kvs)"
    by (rule conjunct2 [THEN conjunct1])
  then have b: "lambda_handler example_lib example_world (PDict ?kvs) ()
                  \<noteq> handle_api_gateway_event example_lib example_world (PDict ?kvs)"
    by simp
  from s a b show ?thesis unfolding empty_batch_def by blast
qed

text \<open>
  C5: the query handler always returns a response, with status 200, 404 or 500, and
  never raises. Whatever the body of its \<open>try\<close> raises becomes status 500 with the body
  \<open>{"error": "Internal server error"}\<close>; in particular a request without the
  \<open>imageName\<close> path parameter and a table read that raises.
\<close>

theorem query_always_answers:
  "(\<exists>r w'. handle_api_gateway_event lib w ev = (Inr r, w')
        \<and> (statusCode r = 200 \<or> statusCode r = 404 \<or> statusCode r = 500))
   \<and> (\<forall>e w'. handle_api_gateway_event_try lib w ev = (Inl e, w') \<longrightarrow>
         handle_api_gateway_event lib w ev = (Inr internal_server_error, w'))
   \<and> (\<forall>e. py_path ev [Key ''pathParameters'', Key ''imageName''] = Inl e \<longrightarrow>
         handle_api_gateway_event lib w ev = (Inr internal_server_error, w))
   \<and> (\<forall>k e. py_path ev [Key ''pathParameters'', Key ''imageName''] = Inr k \<and> get_fault w k = Some e \<longrightarrow>
         handle_api_gateway_event lib w ev =
           (Inr internal_server_error, w\<lparr>calls := calls w @ [GetItem k]\<rparr>))"
proof (intro conjI allI impI)
  show "\<exists>r w'. handle_api_gateway_event lib w ev = (Inr r, w')
        \<and> (statusCode r = 200 \<or> statusCode r = 404 \<or> statusCode r = 500)"
    using api_response [of lib w ev] by blast
next
  fix e w' assume "handle_api_gateway_event_try lib w ev = (Inl e, w')"
  then show "handle_api_gateway_event lib w ev = (Inr internal_server_error, w')"
    by (rule api_catches)
next
  fix e assume "py_path ev [Key ''pathParameters'', Key ''imageName''] = Inl e"
  then have "handle_api_gateway_event_try lib w ev = (Inl e, w)" by (rule api_try_no_parameter)
  then show "handle_api_gateway_event lib w ev = (Inr internal_server_error, w)"
    by (rule api_catches)
next
  fix k e
  assume "py_path ev [Key ''pathParameters'', Key ''imageName''] = Inr k \<and> get_fault w k = Some e"
  then have "handle_api_gateway_event_try lib w ev = (Inl e, w\<lparr>calls := calls w @ [GetItem k]\<rparr>)"
    by (simp add: api_try_get_fault)
  then show "handle_api_gateway_event lib w ev =
           (Inr internal_server_error, w\<lparr>calls := calls w @ [GetItem k]\<rparr>)"
    by (rule api_catches)
qed

theorem query_always_answers_witness:
  "py_path (PDict [(''httpMethod'', PStr ''GET'')]) [Key ''pathParameters'', Key ''imageName'']
     = Inl KeyError
   \<and> handle_api_gateway_event example_lib example_world (PDict [(''httpMethod'', PStr ''GET'')])
     = (Inr internal_server_error, example_world)
   \<and> py_path example_lookup [Key ''pathParameters'', Key ''imageName''] = Inr (PStr ''a b.png'')
   \<and> get_fault (example_world\<lparr>get_fault := (\<lambda>key. Some (BotoCoreError ''EndpointConnectionError''))\<rparr>)
        (PStr ''a b.png'') = Some (BotoCoreError ''EndpointConnectionError'')
   \<and> fst (handle_api_gateway_event example_lib
            (example_world\<lparr>get_fault := (\<lambda>key. Some (BotoCoreError ''EndpointConnectionError''))\<rparr>)
            example_lookup)
     = Inr internal_server_error"
proof -
  let ?ev = "PDict [(''httpMethod'', PStr ''GET'')]"
  let ?w = "example_world\<lparr>get_fault := (\<lambda>key. Some (BotoCoreError ''EndpointConnectionError''))\<rparr>"
  have p: "py_path ?ev [Key ''pathParameters'', Key ''imageName''] = Inl KeyError" by simp
  have t: "handle_api_gateway_event_try example_lib example_world ?ev = (Inl KeyError, example_world)"
    by (simp add: handle_api_gateway_event_try_def)
  have a: "handle_api_gateway_event example_lib example_world ?ev
             = (Inr internal_server_error, example_world)"
    using query_always_answers [of example_lib example_world ?ev] p t by blast
  have q: "py_path example_lookup [Key ''pathParameters'', Key ''imageName''] = Inr (PStr ''a b.png'')"
    by (simp add: example_lookup_def)
  have g: "get_fault ?w (PStr ''a b.png'') = Some (BotoCoreError ''EndpointConnectionError'')"
    by simp
  have "handle_api_gateway_event example_lib ?w example_lookup
          = (Inr internal_server_error, ?w\<lparr>calls := calls ?w @ [GetItem (PStr ''a b.png'')]\<rparr>)"
    using query_always_answers [of example_lib ?w example_lookup] q g by blast
  then have b: "fst (handle_api_gateway_event example_lib ?w example_lookup) = Inr internal_server_error"
    by simp
  from p a q g b show ?thesis by blast
qed

text \<open>
  C6: a lookup of a key under which the table holds no row, the table answering the
  read, returns status 404 with the body \<open>{"error": "Image not found"}\<close>.
\<close>

theorem lookup_not_found:
  assumes "py_path ev [Key ''pathParameters'', Key ''imageName''] = Inr (PStr k)"
    and "get_fault w (PStr k) = None"
    and "rows w k = None"
  shows "handle_api_gateway_event lib w ev =
           (Inr \<lparr>statusCode = 404,
                 body = Some (JsonText (PDict [(''error'', PStr ''Image not found'')])),
                 headers = None\<rparr>, w\<lparr>calls := calls w @ [GetItem (PStr k)]\<rparr>)"
  using api_try_not_found [OF assms, of lib]
  unfolding image_not_found_def by (rule api_of_try_response)

theorem lookup_not_found_witness:
  "py_path example_lookup [Key ''pathParameters'', Key ''imageName''] = Inr (PStr ''a b.png'')
   \<and> get_fault example_world (PStr ''a b.png'') = None
   \<and> rows example_world ''a b.png'' = None
   \<and> handle_api_gateway_event example_lib example_world example_lookup =
           (Inr \<lparr>statusCode = 404,
                 body = Some (JsonText (PDict [(''error'', PStr ''Image not found'')])),
                 headers = None\<rparr>,
            example_world\<lparr>calls := [GetItem (PStr ''a b.png'')]\<rparr>)"
proof -
  have p: "py_path example_lookup [Key ''pathParameters'', Key ''imageName''] = Inr (PStr ''a b.png'')"
    by (simp add: example_lookup_def)
  have g: "get_fault example_world (PStr ''a b.png'') = None" by (simp add: example_world_def)
  have r: "rows example_world ''a b.png'' = None" by (simp add: example_world_def)
  have c: "calls example_world = []" by (simp add: example_world_def)
  show ?thesis using p g r lookup_not_found [OF p g r, of example_lib] by (simp add: c)
qed

text \<open>
  C8, as the specification states it, fails: the router tests the \<open>Records\<close> key and
  not what is stored under it. The envelope \<open>{"Records": 5}\<close> contains neither a
  records list nor an HTTP method field, and the router runs the ingestion handler on
  it, which raises \<open>TypeError\<close>: the invocation fails and no status 400 is returned.
  (No call to the store or the table is made on it either.)
\<close>

theorem router_unknown_source_counterexample:
  "\<not> records_list number_records
   \<and> py_in ''httpMethod'' number_records = Inr False
   \<and> lambda_handler example_lib example_world number_records () =
       handle_s3_event example_lib example_world number_records
   \<and> lambda_handler example_lib example_world number_records () = (Inl TypeError, example_world)
   \<and> fst (lambda_handler example_lib example_world number_records ()) \<noteq> Inr unknown_event_source"
proof -
  have n: "\<not> records_list number_records"
    by (simp add: records_list_def number_records_def)
  have h: "py_in ''httpMethod'' number_records = Inr False"
    by (simp add: number_records_def)
  have l: "lambda_handler example_lib example_world number_records () =
             handle_s3_event example_lib example_world number_records"
    by (simp add: lambda_handler_def json_dumps_def number_records_def)
  have t: "handle_s3_event example_lib example_world number_records = (Inl TypeError, example_world)"
    by (simp add: handle_s3_event_eq_try handle_s3_event_try_def number_records_def)
  from l t have e: "lambda_handler example_lib example_world number_records ()
                      = (Inl TypeError, example_world)"
    by simp
  then have f: "fst (lambda_handler example_lib example_world number_records ())
                  \<noteq> Inr unknown_event_source"
    by simp
  from n h l e f show ?thesis by blast
qed

text \<open>
  C8, amended: on a JSON envelope (a dict) with neither a \<open>Records\<close> key nor an
  \<open>httpMethod\<close> key the router returns status 400 with the body
  \<open>"Unknown event source"\<close> and leaves the two services as they were: no call is made.
  On every envelope the router makes no call of its own: the state it returns is the one
  it was given or the one returned by the handler it ran.
\<close>

theorem router_unknown_source:
  assumes "json_serializable (PDict kvs)"
    and "''Records'' \<notin> fst ` set kvs"
    and "''httpMethod'' \<notin> fst ` set kvs"
  shows "lambda_handler lib w (PDict kvs) ctx =
           (Inr \<lparr>statusCode = 400, body = Some (JsonText (PStr ''Unknown event source'')),
                 headers = None\<rparr>, w)
         \<and> calls (snd (lambda_handler lib w (PDict kvs) ctx)) = calls w
         \<and> (snd (lambda_handler lib w ev ctx) = w
            \<or> lambda_handler lib w ev ctx = handle_s3_event lib w ev
            \<or> lambda_handler lib w ev ctx = handle_api_gateway_event lib w ev)"
  using assms lambda_handler_world [of lib w ev ctx]
  by (simp add: lambda_handler_dict unknown_event_source_def)

theorem router_unknown_source_witness:
  "json_serializable (PDict [(''source'', PStr ''aws.events'')])
   \<and> ''Records'' \<notin> fst ` set [(''source'', PStr ''aws.events'')]
   \<and> ''httpMethod'' \<notin> fst ` set [(''source'', PStr ''aws.events'')]
   \<and> lambda_handler example_lib example_world (PDict [(''source'', PStr ''aws.events'')]) () =
       (Inr \<lparr>statusCode = 400, body = Some (JsonText (PStr ''Unknown event source'')),
             headers = None\<rparr>, example_world)"
  using router_unknown_source [of "[(''source'', PStr ''aws.events'')]" example_lib example_world "()"]
  by simp

text \<open>
  C10: on a JSON envelope (a dict) that has both a \<open>Records\<close> key and an \<open>httpMethod\<close>
  key the router runs the ingestion handler and not the query handler.
\<close>

theorem router_records_first:
  assumes "json_serializable (PDict kvs)"
    and "''Records'' \<in> fst ` set kvs"
    and "''httpMethod'' \<in> fst ` set kvs"
  shows "lambda_handler lib w (PDict kvs) ctx = handle_s3_event lib w (PDict kvs)
         \<and> lambda_handler lib w (PDict kvs) ctx \<noteq> handle_api_gateway_event lib w (PDict kvs)"
  using assms handlers_differ [of lib w "PDict kvs"]
  by (simp add: lambda_handler_dict)

theorem router_records_first_witness:
  "json_serializable
     (PDict ((''httpMethod'', PStr ''GET'') # [(''Records'', PList [PDict []])]))
   \<and> lambda_handler example_lib example_world
       (PDict ((''httpMethod'', PStr ''GET'') # [(''Records'', PList [PDict []])])) ()
     = handle_s3_event example_lib example_world
         (PDict ((''httpMethod'', PStr ''GET'') # [(''Records'', PList [PDict []])]))
   \<and> fst (lambda_handler example_lib example_world
       (PDict ((''httpMethod'', PStr ''GET'') # [(''Records'', PList [PDict []])])) ())
     = Inl KeyError"
proof -
  let ?kvs = "(''httpMethod'', PStr ''GET'') # [(''Records'', PList [PDict []])]"
  have s: "json_serializable (PDict ?kvs)" by simp
  have r: "''Records'' \<in> fst ` set ?kvs" by simp
  have h: "''httpMethod'' \<in> fst ` set ?kvs" by simp
  have e: "fst (handle_s3_event example_lib example_world (PDict ?kvs)) = Inl KeyError"
    by (simp add: handle_s3_event_eq_try handle_s3_event_try_def py_index_def)
  from router_records_first [OF s r h, of example_lib example_world "()"] s e
  show ?thesis by simp
qed

text \<open>
  C2: for every notification whose first record names bucket \<open>b\<close> and key \<open>K\<close>, the
  ingestion handler calls \<open>head_object\<close> with \<open>Key\<close> the decoded \<open>K\<close>, and the only
  other call it makes is a \<open>put_item\<close> of an item whose \<open>imageName\<close> is the decoded
  \<open>K\<close>; when it succeeds, the table has changed at the decoded \<open>K\<close> only. Decoding is
  full percent/plus decoding: whenever \<open>K\<close> is an encoding of a key \<open>k\<close> (every byte
  of \<open>k\<close> as an escape, a space as \<open>+\<close>, or a safe character as itself), the decoded
  \<open>K\<close> is \<open>k\<close>, so the \<open>Key\<close> of the fetch and the \<open>imageName\<close> written are \<open>k\<close>.
  In particular both \<open>%20\<close> and \<open>+\<close> become a space.
\<close>

theorem ingestion_decodes_key:
  assumes "names ev b K"
  shows "(calls (snd (handle_s3_event lib w ev)) = calls w @ [HeadObject b (unquote_plus K)]
          \<or> (\<exists>L C T. calls (snd (handle_s3_event lib w ev)) =
                calls w @ [HeadObject b (unquote_plus K),
                           PutItem (image_item lib (unquote_plus K) L C T)]))
       \<and> (\<forall>r w'. handle_s3_event lib w ev = (Inr r, w') \<longrightarrow>
             (\<exists>L C T. rows w' = (rows w)(unquote_plus K \<mapsto> stored_item lib (unquote_plus K) L C T)))
       \<and> (\<forall>k. utf8_ok k \<and> encodes k K \<longrightarrow>
             unquote_plus K = k
             \<and> (calls (snd (handle_s3_event lib w ev)) = calls w @ [HeadObject b k]
                \<or> (\<exists>L C T. calls (snd (handle_s3_event lib w ev)) =
                      calls w @ [HeadObject b k, PutItem (image_item lib k L C T)]))
             \<and> (\<forall>r w'. handle_s3_event lib w ev = (Inr r, w') \<longrightarrow>
                   (\<exists>L C T. rows w' = (rows w)(k \<mapsto> stored_item lib k L C T))))
       \<and> (\<forall>a c. plain a \<and> plain c \<longrightarrow>
             unquote_plus (a @ ''%20'' @ c) = a @ '' '' @ c
             \<and> unquote_plus (a @ ''+'' @ c) = a @ '' '' @ c)"
proof -
  have calls: "calls (snd (handle_s3_event lib w ev)) = calls w @ [HeadObject b (unquote_plus K)]
          \<or> (\<exists>L C T. calls (snd (handle_s3_event lib w ev)) =
                calls w @ [HeadObject b (unquote_plus K),
                           PutItem (image_item lib (unquote_plus K) L C T)])"
    using assms
  proof (cases rule: s3_outcome_cases [where w = w and lib = lib])
    case (store_fails e) then show ?thesis by simp
  next
    case (field_missing m) then show ?thesis by simp
  next
    case (put_fails m L C T e) then show ?thesis by auto
  next
    case (written m L C T) then show ?thesis by auto
  qed
  have row: "\<forall>r w'. handle_s3_event lib w ev = (Inr r, w') \<longrightarrow>
             (\<exists>L C T. rows w' = (rows w)(unquote_plus K \<mapsto> stored_item lib (unquote_plus K) L C T))"
  proof (intro allI impI)
    fix r w' assume ok: "handle_s3_event lib w ev = (Inr r, w')"
    from assms show "\<exists>L C T. rows w' = (rows w)(unquote_plus K \<mapsto> stored_item lib (unquote_plus K) L C T)"
    proof (cases rule: s3_outcome_cases [where w = w and lib = lib])
      case (store_fails e) with ok show ?thesis by simp
    next
      case (field_missing m) with ok show ?thesis by simp
    next
      case (put_fails m L C T e) with ok show ?thesis by simp
    next
      case (written m L C T)
      with ok have "rows w' = (rows w)(unquote_plus K \<mapsto> stored_item lib (unquote_plus K) L C T)"
        by auto
      then show ?thesis by blast
    qed
  qed
  have decoded: "\<forall>k. utf8_ok k \<and> encodes k K \<longrightarrow>
             unquote_plus K = k
             \<and> (calls (snd (handle_s3_event lib w ev)) = calls w @ [HeadObject b k]
                \<or> (\<exists>L C T. calls (snd (handle_s3_event lib w ev)) =
                      calls w @ [HeadObject b k, PutItem (image_item lib k L C T)]))
             \<and> (\<forall>r w'. handle_s3_event lib w ev = (Inr r, w') \<longrightarrow>
                   (\<exists>L C T. rows w' = (rows w)(k \<mapsto> stored_item lib k L C T)))"
  proof (intro allI impI)
    fix k assume "utf8_ok k \<and> encodes k K"
    then have k: "unquote_plus K = k" by (simp add: unquote_plus_encodes)
    from calls row show "unquote_plus K = k
             \<and> (calls (snd (handle_s3_event lib w ev)) = calls w @ [HeadObject b k]
                \<or> (\<exists>L C T. calls (snd (handle_s3_event lib w ev)) =
                      calls w @ [HeadObject b k, PutItem (image_item lib k L C T)]))
             \<and> (\<forall>r w'. handle_s3_event lib w ev = (Inr r, w') \<longrightarrow>
                   (\<exists>L C T. rows w' = (rows w)(k \<mapsto> stored_item lib k L C T)))"
      unfolding k by (intro conjI refl)
  qed
  have space: "\<forall>a c. plain a \<and> plain c \<longrightarrow>
             unquote_plus (a @ ''%20'' @ c) = a @ '' '' @ c
             \<and> unquote_plus (a @ ''+'' @ c) = a @ '' '' @ c"
  proof (intro allI impI)
    fix a c assume "plain a \<and> plain c"
    then have "plain a" and "plain c" by simp_all
    then show "unquote_plus (a @ ''%20'' @ c) = a @ '' '' @ c
             \<and> unquote_plus (a @ ''+'' @ c) = a @ '' '' @ c"
      by (intro conjI unquote_plus_space)
  qed
  from calls row decoded space show ?thesis by (intro conjI)
qed

theorem ingestion_decodes_key_witness:
  "names example_notification (PStr ''imgs'') ''a%20b.png''
   \<and> utf8_ok ''a b.png'' \<and> encodes ''a b.png'' ''a%20b.png''
   \<and> calls (snd (handle_s3_event example_lib example_world example_notification)) =
       [HeadObject (PStr ''imgs'') ''a b.png'',
        PutItem (image_item example_lib ''a b.png'' 1024 ''image/png'' 1704067200000000)]
   \<and> rows (snd (handle_s3_event example_lib example_world example_notification)) ''a b.png''
       = Some example_row
   \<and> names example_notification3 (PStr ''imgs'') ''caf%C3%A9.png''
   \<and> utf8_ok example_key3 \<and> encodes example_key3 ''caf%C3%A9.png''
   \<and> unquote_plus ''caf%C3%A9.png'' = example_key3
   \<and> calls (snd (handle_s3_event example_lib example_world example_notification3)) =
       [HeadObject (PStr ''imgs'') example_key3]
   \<and> plain ''my'' \<and> plain ''photo.jpg''
   \<and> unquote_plus ''my%20photo.jpg'' = ''my photo.jpg''
   \<and> unquote_plus ''my+photo.jpg'' = ''my photo.jpg''"
proof -
  note t = ingestion_decodes_key [OF example_names, of example_lib example_world]
  have u1: "utf8_ok ''a b.png''" by code_simp
  have e1: "encodes ''a b.png'' ''a%20b.png''" by code_simp
  from t u1 e1 have k1: "unquote_plus ''a%20b.png'' = ''a b.png''" by blast
  have c: "calls (snd (handle_s3_event example_lib example_world example_notification)) =
       [HeadObject (PStr ''imgs'') ''a b.png'',
        PutItem (image_item example_lib ''a b.png'' 1024 ''image/png'' 1704067200000000)]"
    by (simp add: example_ingestion)
  have r: "rows (snd (handle_s3_event example_lib example_world example_notification)) ''a b.png''
       = Some example_row"
    by (simp add: example_ingestion)
  have n3: "names example_notification3 (PStr ''imgs'') ''caf%C3%A9.png''"
    by (simp add: names_def example_notification3_def py_index_def)
  note t3 = ingestion_decodes_key [OF n3, of example_lib example_world]
  have u3: "utf8_ok example_key3" by code_simp
  have e3: "encodes example_key3 ''caf%C3%A9.png''" by code_simp
  from t3 u3 e3 have k3: "unquote_plus ''caf%C3%A9.png'' = example_key3" by blast
  have s3: "store example_world (PStr ''imgs'') (unquote_plus ''caf%C3%A9.png'')
              = Inl (ClientError ''404'')"
    unfolding k3 by (simp add: example_world_def example_key3_def)
  have c3: "calls (snd (handle_s3_event example_lib example_world example_notification3)) =
       [HeadObject (PStr ''imgs'') example_key3]"
    unfolding s3_store_fails [OF n3 s3] k3 by (simp add: example_world_def)
  have p: "plain ''my''" "plain ''photo.jpg''" by (simp_all add: plain_def is_ascii_def)
  from t have "\<forall>a c. plain a \<and> plain c \<longrightarrow>
             unquote_plus (a @ ''%20'' @ c) = a @ '' '' @ c
             \<and> unquote_plus (a @ ''+'' @ c) = a @ '' '' @ c"
    by (rule conjunct2 [THEN conjunct2, THEN conjunct2])
  with p have "unquote_plus (''my'' @ ''%20'' @ ''photo.jpg'') = ''my'' @ '' '' @ ''photo.jpg''
     \<and> unquote_plus (''my'' @ ''+'' @ ''photo.jpg'') = ''my'' @ '' '' @ ''photo.jpg''"
    by blast
  then have u: "unquote_plus ''my%20photo.jpg'' = ''my photo.jpg''"
    "unquote_plus ''my+photo.jpg'' = ''my photo.jpg''" by simp_all
  from example_names u1 e1 c r n3 u3 e3 k3 c3 p u show ?thesis by (intro conjI)
qed

text \<open>
  C4: the ingestion handler raises again whatever the body of its \<open>try\<close> raises: the
  exception of a failing metadata fetch, the \<open>KeyError\<close> of a metadata field that is
  absent when the record is built, the exception of a failing table write. It returns a
  response only when all three steps succeeded, and that response is the bare status
  200: no failure becomes a 200 or a 4xx response.
\<close>

theorem ingestion_fails_loud:
  "handle_s3_event lib w ev = handle_s3_event_try lib w ev
   \<and> (\<forall>b K e. names ev b K \<and> store w b (unquote_plus K) = Inl e \<longrightarrow>
         fst (handle_s3_event lib w ev) = Inl e)
   \<and> (\<forall>b K m. names ev b K \<and> store w b (unquote_plus K) = Inr m
         \<and> (ContentLength m = None \<or> ContentType m = None \<or> LastModified m = None) \<longrightarrow>
         fst (handle_s3_event lib w ev) = Inl KeyError)
   \<and> (\<forall>b K m L C T e. names ev b K \<and> store w b (unquote_plus K) = Inr m
         \<and> ContentLength m = Some L \<and> ContentType m = Some C \<and> LastModified m = Some T
         \<and> put_fault w (image_item lib (unquote_plus K) L C T) = Some e \<longrightarrow>
         fst (handle_s3_event lib w ev) = Inl e)
   \<and> (\<forall>r w'. handle_s3_event lib w ev = (Inr r, w') \<longrightarrow>
         r = \<lparr>statusCode = 200, body = None, headers = None\<rparr>
         \<and> (\<exists>b K m L C T. names ev b K \<and> store w b (unquote_plus K) = Inr m
               \<and> ContentLength m = Some L \<and> ContentType m = Some C \<and> LastModified m = Some T
               \<and> put_fault w (image_item lib (unquote_plus K) L C T) = None))"
proof (intro conjI allI impI)
  show "handle_s3_event lib w ev = handle_s3_event_try lib w ev" by (rule handle_s3_event_eq_try)
next
  fix b K e assume "names ev b K \<and> store w b (unquote_plus K) = Inl e"
  then show "fst (handle_s3_event lib w ev) = Inl e" by (simp add: s3_store_fails [of ev b K w e])
next
  fix b K m
  assume a: "names ev b K \<and> store w b (unquote_plus K) = Inr m
         \<and> (ContentLength m = None \<or> ContentType m = None \<or> LastModified m = None)"
  then have "handle_s3_event lib w ev =
      (Inl KeyError, w\<lparr>calls := calls w @ [HeadObject b (unquote_plus K)]\<rparr>)"
    by (intro s3_field_missing [of ev b K w m]) simp_all
  then show "fst (handle_s3_event lib w ev) = Inl KeyError" by simp
next
  fix b K m L C T e
  assume "names ev b K \<and> store w b (unquote_plus K) = Inr m
         \<and> ContentLength m = Some L \<and> ContentType m = Some C \<and> LastModified m = Some T
         \<and> put_fault w (image_item lib (unquote_plus K) L C T) = Some e"
  then show "fst (handle_s3_event lib w ev) = Inl e"
    by (simp add: s3_put_fails [of ev b K w m L C T lib e])
next
  fix r w' assume "handle_s3_event lib w ev = (Inr r, w')"
  then show "r = \<lparr>statusCode = 200, body = None, headers = None\<rparr>" by (rule s3_response)
next
  fix r w' assume "handle_s3_event lib w ev = (Inr r, w')"
  then show "\<exists>b K m L C T. names ev b K \<and> store w b (unquote_plus K) = Inr m
               \<and> ContentLength m = Some L \<and> ContentType m = Some C \<and> LastModified m = Some T
               \<and> put_fault w (image_item lib (unquote_plus K) L C T) = None"
    by (rule s3_success_steps)
qed

theorem ingestion_fails_loud_witness:
  "names example_notification (PStr ''imgs'') ''a%20b.png''
   \<and> fst (handle_s3_event example_lib
            (example_world\<lparr>store := (\<lambda>b k. Inl (ClientError ''404''))\<rparr>) example_notification)
       = Inl (ClientError ''404'')
   \<and> fst (handle_s3_event example_lib
            (example_world\<lparr>store := (\<lambda>b k. Inr (example_metadata\<lparr>ContentType := None\<rparr>))\<rparr>)
            example_notification)
       = Inl KeyError
   \<and> fst (handle_s3_event example_lib
            (example_world\<lparr>put_fault := (\<lambda>item. Some (ClientError ''ResourceNotFoundException''))\<rparr>)
            example_notification)
       = Inl (ClientError ''ResourceNotFoundException'')"
proof -
  let ?w1 = "example_world\<lparr>store := (\<lambda>b k. Inl (ClientError ''404''))\<rparr>"
  let ?w2 = "example_world\<lparr>store := (\<lambda>b k. Inr (example_metadata\<lparr>ContentType := None\<rparr>))\<rparr>"
  let ?w3 = "example_world\<lparr>put_fault := (\<lambda>item. Some (ClientError ''ResourceNotFoundException''))\<rparr>"
  note n = example_names
  have s1: "store ?w1 (PStr ''imgs'') (unquote_plus ''a%20b.png'') = Inl (ClientError ''404'')"
    by simp
  have a: "fst (handle_s3_event example_lib ?w1 example_notification) = Inl (ClientError ''404'')"
    using ingestion_fails_loud [of example_lib ?w1 example_notification] n s1 by blast
  have s2: "store ?w2 (PStr ''imgs'') (unquote_plus ''a%20b.png'')
              = Inr (example_metadata\<lparr>ContentType := None\<rparr>)"
    by simp
  have m2: "ContentType (example_metadata\<lparr>ContentType := None\<rparr>) = None" by simp
  have b: "fst (handle_s3_event example_lib ?w2 example_notification) = Inl KeyError"
    using ingestion_fails_loud [of example_lib ?w2 example_notification] n s2 m2 by blast
  have s3: "store ?w3 (PStr ''imgs'') (unquote_plus ''a%20b.png'') = Inr example_metadata"
    using example_store by simp
  have f3: "ContentLength example_metadata = Some 1024" "ContentType example_metadata = Some ''image/png''"
    "LastModified example_metadata = Some 1704067200000000"
    by (simp_all add: example_metadata_def)
  have p3: "put_fault ?w3 (image_item example_lib (unquote_plus ''a%20b.png'') 1024 ''image/png''
              1704067200000000) = Some (ClientError ''ResourceNotFoundException'')"
    by simp
  have c: "fst (handle_s3_event example_lib ?w3 example_notification)
             = Inl (ClientError ''ResourceNotFoundException'')"
    using ingestion_fails_loud [of example_lib ?w3 example_notification] n s3 f3 p3 by blast
  from n a b c show ?thesis by blast
qed

text \<open>
  C7: when a key is ingested twice, both times with success, the row under the decoded
  key is the record of the first ingestion after the first and exactly the record of
  the second ingestion after the second (every field comes from the second metadata),
  and a later lookup of the key answers 200 with the values of the second ingestion
  only.
\<close>

theorem last_write_wins:
  assumes "names ev1 b1 K1" and "store w b1 (unquote_plus K1) = Inr m1"
    and "ContentLength m1 = Some L1" and "ContentType m1 = Some C1" and "LastModified m1 = Some T1"
    and "handle_s3_event lib w ev1 = (Inr r1, w1)"
    and "rows v = rows w1"
    and "names ev2 b2 K2" and "unquote_plus K2 = unquote_plus K1"
    and "store v b2 (unquote_plus K2) = Inr m2"
    and "ContentLength m2 = Some L2" and "ContentType m2 = Some C2" and "LastModified m2 = Some T2"
    and "handle_s3_event lib v ev2 = (Inr r2, w2)"
    and "rows v2 (unquote_plus K1) = rows w2 (unquote_plus K1)"
    and "get_fault v2 (PStr (unquote_plus K1)) = None"
    and "py_path q [Key ''pathParameters'', Key ''imageName''] = Inr (PStr (unquote_plus K1))"
  shows "rows v (unquote_plus K1) = Some (stored_item lib (unquote_plus K1) L1 C1 T1)
       \<and> rows w2 (unquote_plus K1) = Some (stored_item lib (unquote_plus K1) L2 C2 T2)
       \<and> fst (handle_api_gateway_event lib v2 q) =
           Inr \<lparr>statusCode = 200,
                body = Some (JsonText (PDict
                  [(''imageName'', PStr (unquote_plus K1)), (''size'', PInt L2),
                   (''contentType'', PStr C2), (''lastModified'', PStr (isoformat lib T2))])),
                headers = Some [(''Content-Type'', ''application/json'')]\<rparr>"
proof -
  have "rows w1 (unquote_plus K1) = Some (stored_item lib (unquote_plus K1) L1 C1 T1)"
    using assms(1-6) by (rule s3_success_row)
  with assms(7) have a: "rows v (unquote_plus K1) = Some (stored_item lib (unquote_plus K1) L1 C1 T1)"
    by simp
  have "rows w2 (unquote_plus K2) = Some (stored_item lib (unquote_plus K2) L2 C2 T2)"
    using assms(8) assms(10-14) by (rule s3_success_row)
  with assms(9) have b: "rows w2 (unquote_plus K1) = Some (stored_item lib (unquote_plus K1) L2 C2 T2)"
    by simp
  with assms(15) have "rows v2 (unquote_plus K1) = Some (stored_item lib (unquote_plus K1) L2 C2 T2)"
    by simp
  from api_found [OF assms(17) assms(16) this]
  have c: "fst (handle_api_gateway_event lib v2 q) =
           Inr \<lparr>statusCode = 200,
                body = Some (JsonText (PDict
                  [(''imageName'', PStr (unquote_plus K1)), (''size'', PInt L2),
                   (''contentType'', PStr C2), (''lastModified'', PStr (isoformat lib T2))])),
                headers = Some [(''Content-Type'', ''application/json'')]\<rparr>"
    by (simp add: found_def image_item_def)
  from a b c show ?thesis by blast
qed

theorem last_write_wins_witness:
  "fst (handle_s3_event example_lib example_world example_notification)
      = Inr \<lparr>statusCode = 200, body = None, headers = None\<rparr>
   \<and> fst (handle_s3_event example_lib
        ((snd (handle_s3_event example_lib example_world example_notification))
           \<lparr>store := (\<lambda>b k. Inr example_metadata2)\<rparr>) example_notification2)
      = Inr \<lparr>statusCode = 200, body = None, headers = None\<rparr>
   \<and> fst (handle_api_gateway_event example_lib
        (snd (handle_s3_event example_lib
          ((snd (handle_s3_event example_lib example_world example_notification))
             \<lparr>store := (\<lambda>b k. Inr example_metadata2)\<rparr>) example_notification2))
        example_lookup)
      = Inr \<lparr>statusCode = 200,
             body = Some (JsonText (PDict
               [(''imageName'', PStr ''a b.png''), (''size'', PInt 2048),
                (''contentType'', PStr ''image/jpeg''),
                (''lastModified'', PStr ''2024-01-02T00:00:00'')])),
             headers = Some [(''Content-Type'', ''application/json'')]\<rparr>"
proof -
  let ?w1 = "snd (handle_s3_event example_lib example_world example_notification)"
  let ?v = "?w1\<lparr>store := (\<lambda>b k. Inr example_metadata2)\<rparr>"
  let ?w2 = "snd (handle_s3_event example_lib ?v example_notification2)"
  let ?ok = "\<lparr>statusCode = 200, body = None, headers = None\<rparr>"
  have ok1: "handle_s3_event example_lib example_world example_notification = (Inr ?ok, ?w1)"
    by (simp add: example_ingestion)
  have f1: "ContentLength example_metadata = Some 1024" "ContentType example_metadata = Some ''image/png''"
    "LastModified example_metadata = Some 1704067200000000"
    by (simp_all add: example_metadata_def)
  have f2: "ContentLength example_metadata2 = Some 2048" "ContentType example_metadata2 = Some ''image/jpeg''"
    "LastModified example_metadata2 = Some 1704153600000000"
    by (simp_all add: example_metadata2_def)
  have s2: "store ?v (PStr ''imgs'') (unquote_plus ''a+b.png'') = Inr example_metadata2" by simp
  have pf: "put_fault ?v (image_item example_lib (unquote_plus ''a+b.png'') 2048 ''image/jpeg''
              1704153600000000) = None"
    unfolding example_ingestion by (simp add: example_world_def)
  have ok2: "handle_s3_event example_lib ?v example_notification2 = (Inr ?ok, ?w2)"
    by (simp add: s3_put_succeeds [OF example_names2 s2 f2 pf])
  have k: "unquote_plus ''a+b.png'' = unquote_plus ''a%20b.png''"
    by (simp add: example_key example_key2)
  have g1: "get_fault ?w1 = (\<lambda>key. None)"
    unfolding example_ingestion by (simp add: example_world_def)
  have g: "get_fault ?w2 (PStr (unquote_plus ''a%20b.png'')) = None"
    by (simp add: s3_put_succeeds [OF example_names2 s2 f2 pf] g1)
  have q: "py_path example_lookup [Key ''pathParameters'', Key ''imageName'']
             = Inr (PStr (unquote_plus ''a%20b.png''))"
    by (simp add: example_lookup_def example_key)
  have i: "isoformat example_lib 1704153600000000 = ''2024-01-02T00:00:00''"
    by (simp add: example_lib_def)
  from last_write_wins [OF example_names example_store f1 ok1 _ example_names2 k s2 f2 ok2 refl g q]
  have "fst (handle_api_gateway_event example_lib ?w2 example_lookup)
      = Inr \<lparr>statusCode = 200,
             body = Some (JsonText (PDict
               [(''imageName'', PStr ''a b.png''), (''size'', PInt 2048),
                (''contentType'', PStr ''image/jpeg''),
                (''lastModified'', PStr ''2024-01-02T00:00:00'')])),
             headers = Some [(''Content-Type'', ''application/json'')]\<rparr>"
    by (simp add: example_key i)
  moreover have "fst (handle_s3_event example_lib example_world example_notification) = Inr ?ok"
    by (simp add: example_ingestion)
  moreover have "fst (handle_s3_event example_lib ?v example_notification2) = Inr ?ok"
    by (simp add: s3_put_succeeds [OF example_names2 s2 f2 pf])
  ultimately show ?thesis by blast
qed

text \<open>
  C9: for every key (a string, so well-formed UTF-8) and every percent/plus encoding of
  it, \<open>unquote_plus\<close> gives back exactly the key; encoding the result and decoding
  again gives the same key once more. Every key has such an encoding, so the statement
  is about all keys; \<open>my+photo.jpg\<close> and \<open>my%20photo.jpg\<close> both decode to
  \<open>my photo.jpg\<close>.
\<close>

theorem key_round_trip:
  assumes "utf8_ok k"
  shows "encodes k (percent_encode k)
       \<and> (\<forall>e. encodes k e \<longrightarrow>
             unquote_plus e = k
             \<and> (\<forall>e'. encodes (unquote_plus e) e' \<longrightarrow> unquote_plus e' = k))"
proof (intro conjI allI impI)
  show "encodes k (percent_encode k)" by (rule encodes_percent_encode)
next
  fix e assume "encodes k e"
  with assms show "unquote_plus e = k" by (rule unquote_plus_encodes)
next
  fix e e' assume "encodes k e" and e': "encodes (unquote_plus e) e'"
  with assms have "unquote_plus e = k" by (simp add: unquote_plus_encodes)
  with e' have "encodes k e'" by simp
  with assms show "unquote_plus e' = k" by (rule unquote_plus_encodes)
qed

theorem key_round_trip_witness:
  "utf8_ok ''my photo.jpg''
   \<and> encodes ''my photo.jpg'' ''my+photo.jpg''
   \<and> encodes ''my photo.jpg'' ''my%20photo.jpg''
   \<and> unquote_plus ''my+photo.jpg'' = ''my photo.jpg''
   \<and> unquote_plus ''my%20photo.jpg'' = ''my photo.jpg''
   \<and> unquote_plus (percent_encode ''my photo.jpg'') = ''my photo.jpg''
   \<and> utf8_ok [CHR 0x63, CHR 0x61, CHR 0x66, CHR 0xC3, CHR 0xA9]
   \<and> unquote_plus ''caf%C3%A9'' = [CHR 0x63, CHR 0x61, CHR 0x66, CHR 0xC3, CHR 0xA9]"
proof -
  have u: "utf8_ok ''my photo.jpg''" by code_simp
  have a: "encodes ''my photo.jpg'' ''my+photo.jpg''" by code_simp
  have b: "encodes ''my photo.jpg'' ''my%20photo.jpg''" by code_simp
  note t = key_round_trip [OF u]
  from t a have c: "unquote_plus ''my+photo.jpg'' = ''my photo.jpg''" by blast
  from t b have d: "unquote_plus ''my%20photo.jpg'' = ''my photo.jpg''" by blast
  from t have e: "unquote_plus (percent_encode ''my photo.jpg'') = ''my photo.jpg''" by blast
  have v: "utf8_ok [CHR 0x63, CHR 0x61, CHR 0x66, CHR 0xC3, CHR 0xA9]" by code_simp
  have f: "encodes [CHR 0x63, CHR 0x61, CHR 0x66, CHR 0xC3, CHR 0xA9] ''caf%C3%A9''" by code_simp
  from key_round_trip [OF v] f
  have g: "unquote_plus ''caf%C3%A9'' = [CHR 0x63, CHR 0x61, CHR 0x66, CHR 0xC3, CHR 0xA9]" by blast
  from u a b c d e v g show ?thesis by blast
qed

end
